theory Spec2Isabelle
  imports Main
begin

section \<open>Task list configuration (src/state.ts)\<close>

text \<open>
  A JavaScript string is the list of its UTF-16 code units, numbers below 65536; the
  functions below are defined on every list of numbers. \<open>lit\<close> gives the code units
  of a literal of the source, whose characters are all ASCII. Reading an array past its
  end yields \<open>undefined\<close> (\<open>None\<close>), and calling a method on \<open>undefined\<close> throws a
  \<open>TypeError\<close>. Writes to \<open>console.error\<close> are not part of the returned state and
  are left out.
\<close>

type_synonym js_string = "nat list"

definition code_unit :: "char \<Rightarrow> nat" where
  "code_unit c = of_char c"

definition lit :: "string \<Rightarrow> js_string" where
  "lit s = map code_unit s"

datatype js_error = TypeError

datatype sort_key = SortDue | SortScore
datatype group_key = GroupDue | GroupCompleted

record TaskListConfig =
  overdue :: bool
  due :: bool
  noDue :: bool
  completed :: "bool option"
  sort :: "sort_key option"
  group :: "group_key option"
  selectTags :: "js_string list"
  omitTags :: "js_string list"
  selectDay :: "js_string option"
  selectWeek :: "js_string option"

definition TaskListConfigDefaults :: TaskListConfig where
  "TaskListConfigDefaults =
     \<lparr> overdue = False, due = True, noDue = True, completed = None,
       sort = Some SortScore, group = None, selectTags = [], omitTags = [],
       selectDay = None, selectWeek = None \<rparr>"

text \<open>\<open>String.prototype.split\<close> with a separator of one code unit.\<close>

fun js_split :: "nat \<Rightarrow> js_string \<Rightarrow> js_string list" where
  "js_split c [] = [[]]"
| "js_split c (x # xs) =
     (if x = c then [] # js_split c xs
      else (case js_split c xs of
              [] \<Rightarrow> [[x]]
            | p # ps \<Rightarrow> (x # p) # ps))"

text \<open>
  The line terminators of ECMAScript: LF, CR, U+2028 and U+2029. Its white space: TAB,
  VT, FF, SP, NBSP, U+FEFF and the other space separators U+1680, U+2000 to U+200A,
  U+202F, U+205F and U+3000. \<open>trim\<close> removes both kinds from the two ends; the dot
  of a regular expression matches every code unit but a line terminator.
\<close>

definition js_line_terminator :: "nat \<Rightarrow> bool" where
  "js_line_terminator c = (c \<in> {10, 13, 8232, 8233})"

definition js_white_space :: "nat \<Rightarrow> bool" where
  "js_white_space c =
     (c \<in> {9, 11, 12, 32, 160, 5760, 8239, 8287, 12288, 65279} \<or> (8192 \<le> c \<and> c \<le> 8202))"

definition js_is_space :: "nat \<Rightarrow> bool" where
  "js_is_space c = (js_white_space c \<or> js_line_terminator c)"

definition js_trim :: "js_string \<Rightarrow> js_string" where
  "js_trim s = rev (dropWhile js_is_space (rev (dropWhile js_is_space s)))"

text \<open>\<open>s.match(/^\[.*\]$/)\<close>: an opening bracket, any run without a line terminator,
  a closing bracket at the end of the input.\<close>

definition matches_bracketed :: "js_string \<Rightarrow> bool" where
  "matches_bracketed s =
     (case s of
        [] \<Rightarrow> False
      | x # xs \<Rightarrow> x = code_unit CHR ''['' \<and> xs \<noteq> [] \<and> last xs = code_unit CHR '']'' \<and>
                  (\<forall>c \<in> set (butlast xs). \<not> js_line_terminator c))"

text \<open>\<open>.replace(/^\[/, '')\<close> and \<open>.replace(/\]$/, '')\<close>.\<close>

definition strip_open :: "js_string \<Rightarrow> js_string" where
  "strip_open s = (case s of [] \<Rightarrow> [] | x # xs \<Rightarrow> if x = code_unit CHR ''['' then xs else s)"

definition strip_close :: "js_string \<Rightarrow> js_string" where
  "strip_close s = (if s \<noteq> [] \<and> last s = code_unit CHR '']'' then butlast s else s)"

definition js_index :: "'a list \<Rightarrow> nat \<Rightarrow> 'a option" where
  "js_index xs i = (if i < length xs then Some (xs ! i) else None)"

definition parseTags :: "js_string option \<Rightarrow> js_error + js_string list" where
  "parseTags v =
     (case v of
        None \<Rightarrow> Inl TypeError
      | Some p \<Rightarrow>
          if matches_bracketed p
          then Inr (map js_trim (js_split (code_unit CHR '','') (strip_close (strip_open p))))
          else Inr [p])"

text \<open>The body of the \<open>forEach\<close> callback of \<open>parseTaskListConfig\<close>.\<close>

definition parseLine :: "TaskListConfig \<Rightarrow> js_string \<Rightarrow> js_error + TaskListConfig" where
  "parseLine state line =
     (if line = [] then Inr state
      else
        let parts = map js_trim (js_split (code_unit CHR '':'') line) in
        if length parts \<noteq> 2 then Inr state
        else
          let key = js_index parts 0; val = js_index parts 1 in
          if key = Some (lit ''overdue'')
            then Inr (state\<lparr>overdue := (val = Some (lit ''true''))\<rparr>)
          else if key = Some (lit ''due'')
            then Inr (state\<lparr>due := (val = Some (lit ''true''))\<rparr>)
          else if key = Some (lit ''no-due'')
            then Inr (state\<lparr>noDue := (val = Some (lit ''true''))\<rparr>)
          else if key = Some (lit ''completed'')
            then Inr (state\<lparr>completed := Some (val = Some (lit ''true''))\<rparr>)
          else if key = Some (lit ''sort'') then
            (if val = Some (lit ''due'') then Inr (state\<lparr>sort := Some SortDue\<rparr>)
             else if val = Some (lit ''score'') then Inr (state\<lparr>sort := Some SortScore\<rparr>)
             else Inr (state\<lparr>sort := None\<rparr>))
          else if key = Some (lit ''group'') then
            (if val = Some (lit ''due'') then Inr (state\<lparr>group := Some GroupDue\<rparr>)
             else if val = Some (lit ''completed'')
               then Inr (state\<lparr>group := Some GroupCompleted\<rparr>)
             else Inr (state\<lparr>group := None\<rparr>))
          else if key = Some (lit ''select-tags'') then
            (case parseTags val of
               Inl e \<Rightarrow> Inl e
             | Inr tags \<Rightarrow> Inr (state\<lparr>selectTags := tags\<rparr>))
          else if key = Some (lit ''omit-tags'') then
            (case parseTags val of
               Inl e \<Rightarrow> Inl e
             | Inr tags \<Rightarrow> Inr (state\<lparr>omitTags := tags\<rparr>))
          else if key = Some (lit ''select-day'')
            then Inr (state\<lparr>selectDay := val, due := True\<rparr>)
          else if key = Some (lit ''select-week'')
            then Inr (state\<lparr>selectWeek := val, due := True\<rparr>)
          else Inr state)"

fun parseLines :: "TaskListConfig \<Rightarrow> js_string list \<Rightarrow> js_error + TaskListConfig" where
  "parseLines state [] = Inr state"
| "parseLines state (l # ls) =
     (case parseLine state l of
        Inl e \<Rightarrow> Inl e
      | Inr state' \<Rightarrow> parseLines state' ls)"

definition parseTaskListConfig :: "js_string list \<Rightarrow> js_error + TaskListConfig" where
  "parseTaskListConfig lines = parseLines TaskListConfigDefaults lines"

text \<open>
  The keys of the \<open>switch\<close>, the two trimmed parts of a line, and the lines the claim
  speaks of: a line that is ignored (empty, not two parts, or an unknown key), a
  \<open>sort\<close> line and a \<open>group\<close> line whose value is none of the known ones.
\<close>

definition config_keys :: "js_string list" where
  "config_keys = map lit [''overdue'', ''due'', ''no-due'', ''completed'', ''sort'', ''group'',
     ''select-tags'', ''omit-tags'', ''select-day'', ''select-week'']"

definition line_key :: "js_string \<Rightarrow> js_string" where
  "line_key line = js_trim (hd (js_split (code_unit CHR '':'') line))"

definition line_value :: "js_string \<Rightarrow> js_string" where
  "line_value line = js_trim (hd (tl (js_split (code_unit CHR '':'') line)))"

definition ignored_line :: "js_string \<Rightarrow> bool" where
  "ignored_line line =
     (line = [] \<or> length (js_split (code_unit CHR '':'') line) \<noteq> 2
      \<or> line_key line \<notin> set config_keys)"

definition bad_sort_line :: "js_string \<Rightarrow> bool" where
  "bad_sort_line line =
     (length (js_split (code_unit CHR '':'') line) = 2 \<and> line_key line = lit ''sort''
      \<and> line_value line \<noteq> lit ''due'' \<and> line_value line \<noteq> lit ''score'')"

definition bad_group_line :: "js_string \<Rightarrow> bool" where
  "bad_group_line line =
     (length (js_split (code_unit CHR '':'') line) = 2 \<and> line_key line = lit ''group''
      \<and> line_value line \<noteq> lit ''due'' \<and> line_value line \<noteq> lit ''completed'')"

section \<open>JavaScript numbers, arrays and dates\<close>

text \<open>
  Numbers are modelled as unbounded integers (the engine's doubles are exact below
  \<open>2^53\<close>); \<open>null\<close> and \<open>undefined\<close> are both \<open>None\<close>. The remainder operator
  \<open>%\<close> takes the sign of the dividend; \<open>Math.floor (a / b)\<close> is \<open>a div b\<close>.
\<close>

definition js_rem :: "int \<Rightarrow> int \<Rightarrow> int" where
  "js_rem a b = sgn a * (\<bar>a\<bar> mod \<bar>b\<bar>)"

definition pymod :: "int \<Rightarrow> int \<Rightarrow> int" where
  "pymod a b = (let r = js_rem a b in if r * b < 0 then r + b else r)"

definition divmod :: "int \<Rightarrow> int \<Rightarrow> int \<times> int" where
  "divmod a b = (a div b, pymod a b)"

definition js_range :: "int \<Rightarrow> int \<Rightarrow> int list" where
  "js_range start end = [start..end - 1]"

definition repeat :: "'a \<Rightarrow> int \<Rightarrow> 'a list" where
  "repeat v n = replicate (nat n) v"

definition empty1 :: "'a list option \<Rightarrow> bool" where
  "empty1 obj = (case obj of None \<Rightarrow> True | Some xs \<Rightarrow> xs = [])"

definition notEmpty :: "'a list option \<Rightarrow> bool" where
  "notEmpty obj = (\<not> empty1 obj)"

definition js_includes :: "'a list option \<Rightarrow> 'a \<Rightarrow> bool" where
  "js_includes arr v = (notEmpty arr \<and> (case arr of None \<Rightarrow> False | Some xs \<Rightarrow> v \<in> set xs))"

text \<open>Reading \<open>xs[i]\<close>: \<open>undefined\<close> outside the array.\<close>

definition js_nth :: "'a list \<Rightarrow> int \<Rightarrow> 'a option" where
  "js_nth xs i = (if 0 \<le> i \<and> i < int (length xs) then Some (xs ! nat i) else None)"

text \<open>Writing \<open>xs[i] = v\<close>: past the end the array grows, the gap reading as the filler
  (a hole is \<open>undefined\<close>, which the readers below treat like \<open>null\<close> or \<open>0\<close>);
  a negative index sets a property and leaves the elements alone.\<close>

definition js_set :: "'a \<Rightarrow> 'a list \<Rightarrow> int \<Rightarrow> 'a \<Rightarrow> 'a list" where
  "js_set hole xs i v =
     (if i < 0 then xs
      else if i < int (length xs) then xs[nat i := v]
      else xs @ replicate (nat i - length xs) hole @ [v])"

text \<open>\<open>xs.slice(a, b)\<close>, negative positions counting from the end.\<close>

definition js_slice :: "'a list \<Rightarrow> int \<Rightarrow> int \<Rightarrow> 'a list" where
  "js_slice xs a b =
     (let n = int (length xs);
          k = (if a < 0 then max (n + a) 0 else min a n);
          e = (if b < 0 then max (n + b) 0 else min b n)
      in take (nat (e - k)) (drop (nat k) xs))"

subsection \<open>Time values (ECMAScript, Date objects)\<close>

text \<open>
  A valid \<open>Date\<close> is its time value, the milliseconds since 1970-01-01T00:00:00Z; an
  \<open>Invalid Date\<close> is kept apart where the code tests for it. The functions below are
  the ones of the language definition.
\<close>

definition msPerDay :: int where
  "msPerDay = 86400000"

definition Day :: "int \<Rightarrow> int" where
  "Day t = t div msPerDay"

definition DaysInYear :: "int \<Rightarrow> int" where
  "DaysInYear y =
     (if y mod 4 \<noteq> 0 then 365 else if y mod 100 \<noteq> 0 then 366
      else if y mod 400 \<noteq> 0 then 365 else 366)"

definition DayFromYear :: "int \<Rightarrow> int" where
  "DayFromYear y =
     365 * (y - 1970) + (y - 1969) div 4 - (y - 1901) div 100 + (y - 1601) div 400"

text \<open>The largest year whose first day is not after day \<open>d\<close>.\<close>

definition YearFromDay :: "int \<Rightarrow> int" where
  "YearFromDay d =
     (let y = 1970 + (d * 400) div 146097
      in if d < DayFromYear y then y - 1
         else if DayFromYear (y + 1) \<le> d then y + 1
         else y)"

definition YearFromTime :: "int \<Rightarrow> int" where
  "YearFromTime t = YearFromDay (Day t)"

definition InLeapYear :: "int \<Rightarrow> int" where
  "InLeapYear t = (if DaysInYear (YearFromTime t) = 366 then 1 else 0)"

definition DayWithinYear :: "int \<Rightarrow> int" where
  "DayWithinYear t = Day t - DayFromYear (YearFromTime t)"

text \<open>The day within the year on which month \<open>m\<close> (0 to 11) starts.\<close>

definition MonthStart :: "int \<Rightarrow> int \<Rightarrow> int" where
  "MonthStart m leap =
     (if m = 0 then 0 else if m = 1 then 31 else if m = 2 then 59 + leap
      else if m = 3 then 90 + leap else if m = 4 then 120 + leap
      else if m = 5 then 151 + leap else if m = 6 then 181 + leap
      else if m = 7 then 212 + leap else if m = 8 then 243 + leap
      else if m = 9 then 273 + leap else if m = 10 then 304 + leap
      else 334 + leap)"

definition MonthFromTime :: "int \<Rightarrow> int" where
  "MonthFromTime t =
     (let d = DayWithinYear t; leap = InLeapYear t
      in if d < 31 then 0 else if d < 59 + leap then 1 else if d < 90 + leap then 2
         else if d < 120 + leap then 3 else if d < 151 + leap then 4
         else if d < 181 + leap then 5 else if d < 212 + leap then 6
         else if d < 243 + leap then 7 else if d < 273 + leap then 8
         else if d < 304 + leap then 9 else if d < 334 + leap then 10
         else 11)"

definition DateFromTime :: "int \<Rightarrow> int" where
  "DateFromTime t = DayWithinYear t - MonthStart (MonthFromTime t) (InLeapYear t) + 1"

definition WeekDay :: "int \<Rightarrow> int" where
  "WeekDay t = (Day t + 4) mod 7"

definition HourFromTime :: "int \<Rightarrow> int" where
  "HourFromTime t = (t div 3600000) mod 24"

definition MinFromTime :: "int \<Rightarrow> int" where
  "MinFromTime t = (t div 60000) mod 60"

definition SecFromTime :: "int \<Rightarrow> int" where
  "SecFromTime t = (t div 1000) mod 60"

definition MakeTime :: "int \<Rightarrow> int \<Rightarrow> int \<Rightarrow> int \<Rightarrow> int" where
  "MakeTime h m s ms = h * 3600000 + m * 60000 + s * 1000 + ms"

definition MakeDay :: "int \<Rightarrow> int \<Rightarrow> int \<Rightarrow> int" where
  "MakeDay y m dt =
     (let ym = y + m div 12; mn = m mod 12
      in DayFromYear ym + MonthStart mn (if DaysInYear ym = 366 then 1 else 0) + dt - 1)"

definition MakeDate :: "int \<Rightarrow> int \<Rightarrow> int" where
  "MakeDate d time = d * msPerDay + time"

text \<open>\<open>Date.UTC\<close>; a year from 0 to 99 means 1900 to 1999.\<close>

definition Date_UTC :: "int \<Rightarrow> int \<Rightarrow> int \<Rightarrow> int \<Rightarrow> int \<Rightarrow> int \<Rightarrow> int \<Rightarrow> int" where
  "Date_UTC y m dt h mi s ms =
     (let yr = (if 0 \<le> y \<and> y \<le> 99 then 1900 + y else y)
      in MakeDate (MakeDay yr m dt) (MakeTime h mi s ms))"

text \<open>
  What the host contributes: the offset of its local time zone at a moment (in
  milliseconds, \<open>getTimezoneOffset() * 60 * 1000\<close>), the wall-clock preserving change of
  zone of the bundled date library, and the clock.
\<close>

record host =
  tzOffset :: "int \<Rightarrow> int"
  setZone :: "string \<Rightarrow> int \<Rightarrow> int"
  now :: int

definition utc_host :: host where
  "utc_host = \<lparr> tzOffset = (\<lambda>_. 0), setZone = (\<lambda>_ t. t), now = 0 \<rparr>"

section \<open>dateutil\<close>

definition MONTH_DAYS :: "int list" where
  "MONTH_DAYS = [31, 28, 31, 30, 31, 30, 31, 31, 30, 31, 30, 31]"

definition ONE_DAY :: int where
  "ONE_DAY = 1000 * 60 * 60 * 24"

definition MAXYEAR :: int where
  "MAXYEAR = 9999"

definition ORDINAL_BASE :: int where
  "ORDINAL_BASE = Date_UTC 1970 0 1 0 0 0 0"

definition PY_WEEKDAYS :: "int list" where
  "PY_WEEKDAYS = [6, 0, 1, 2, 3, 4, 5]"

definition isLeapYear :: "int \<Rightarrow> bool" where
  "isLeapYear y = ((js_rem y 4 = 0 \<and> js_rem y 100 \<noteq> 0) \<or> js_rem y 400 = 0)"

text \<open>\<open>Math.round (x / ONE_DAY)\<close>, halves going up.\<close>

definition daysBetween :: "host \<Rightarrow> int \<Rightarrow> int \<Rightarrow> int" where
  "daysBetween h date1 date2 =
     (let date1ms = date1 - tzOffset h date1;
          date2ms = date2 - tzOffset h date2;
          differencems = date1ms - date2ms
      in (2 * differencems + ONE_DAY) div (2 * ONE_DAY))"

definition toOrdinal :: "host \<Rightarrow> int \<Rightarrow> int" where
  "toOrdinal h date = daysBetween h date ORDINAL_BASE"

definition fromOrdinal :: "int \<Rightarrow> int" where
  "fromOrdinal ordinal = ORDINAL_BASE + ordinal * ONE_DAY"

definition getMonthDays :: "int \<Rightarrow> int" where
  "getMonthDays date =
     (let m = MonthFromTime date
      in if m = 1 \<and> isLeapYear (YearFromTime date) then 29 else MONTH_DAYS ! nat m)"

definition getWeekday :: "int \<Rightarrow> int" where
  "getWeekday date = PY_WEEKDAYS ! nat (WeekDay date)"

definition monthRange :: "int \<Rightarrow> int \<Rightarrow> int \<times> int" where
  "monthRange y m = (let date = Date_UTC y m 1 0 0 0 0 in (getWeekday date, getMonthDays date))"

section \<open>Time and DateTime\<close>

record Time =
  hour :: int
  minute :: int
  second :: int
  millisecond :: int

record DateTime = Time +
  year :: int
  month :: int
  day :: int

definition Time_getTime :: "'a Time_scheme \<Rightarrow> int" where
  "Time_getTime t = (hour t * 60 * 60 + minute t * 60 + second t) * 1000 + millisecond t"

definition combine :: "int \<Rightarrow> Time \<Rightarrow> int" where
  "combine date time =
     Date_UTC (YearFromTime date) (MonthFromTime date) (DateFromTime date)
       (hour time) (minute time) (second time) (millisecond time)"

definition fromDate :: "int \<Rightarrow> DateTime" where
  "fromDate date =
     \<lparr> hour = HourFromTime date, minute = MinFromTime date, second = SecFromTime date,
       millisecond = js_rem date 1000,
       year = YearFromTime date, month = MonthFromTime date + 1, day = DateFromTime date \<rparr>"

definition DateTime_getTime :: "DateTime \<Rightarrow> int" where
  "DateTime_getTime d =
     Date_UTC (year d) (month d - 1) (day d) (hour d) (minute d) (second d) (millisecond d)"

definition DateTime_getWeekday :: "DateTime \<Rightarrow> int" where
  "DateTime_getWeekday d = getWeekday (DateTime_getTime d)"

definition addYears :: "int \<Rightarrow> DateTime \<Rightarrow> DateTime" where
  "addYears years d = d\<lparr>year := year d + years\<rparr>"

definition addMonths :: "int \<Rightarrow> DateTime \<Rightarrow> DateTime" where
  "addMonths months d =
     (let m = month d + months
      in if m > 12
         then (let yearDiv = m div 12; monthMod = pymod m 12
               in if monthMod = 0 then d\<lparr>month := 12, year := year d + yearDiv - 1\<rparr>
                  else d\<lparr>month := monthMod, year := year d + yearDiv\<rparr>)
         else d\<lparr>month := m\<rparr>)"

definition daysinmonth :: "DateTime \<Rightarrow> int" where
  "daysinmonth d = snd (monthRange (year d) (month d - 1))"

lemma MonthFromTime_cases:
  "MonthFromTime t \<in> {0, 1, 2, 3, 4, 5, 6, 7, 8, 9, 10, 11}"
  unfolding MonthFromTime_def Let_def by simp

lemma getMonthDays_ge28: "28 \<le> getMonthDays t"
  using MonthFromTime_cases [of t] unfolding getMonthDays_def Let_def MONTH_DAYS_def by auto

lemma daysinmonth_ge28: "28 \<le> daysinmonth d"
  by (simp add: daysinmonth_def monthRange_def Let_def getMonthDays_ge28)

text \<open>The \<open>while\<close> loop of \<open>fixDay\<close>; \<open>daysinmonth\<close> is recomputed from the fields at
  the end of every round, so it is read from them at the loop test.\<close>

function fixDay_loop :: "DateTime \<Rightarrow> DateTime" where
  "fixDay_loop d =
     (if day d > daysinmonth d
      then (let d1 = d\<lparr>day := day d - daysinmonth d, month := month d + 1\<rparr>
            in if month d1 = 13
               then (let d2 = d1\<lparr>month := 1, year := year d1 + 1\<rparr>
                     in if year d2 > MAXYEAR then d2 else fixDay_loop d2)
               else fixDay_loop d1)
      else d)"
  by pat_completeness auto
termination
proof (relation "measure (\<lambda>d. nat (day d))")
  show "wf (measure (\<lambda>d. nat (day d)))" by simp
next
  fix d d1 d2 :: DateTime
  assume "daysinmonth d < day d" and "d1 = d\<lparr>day := day d - daysinmonth d, month := month d + 1\<rparr>"
    and "d2 = d1\<lparr>month := 1, year := year d1 + 1\<rparr>"
  then show "(d2, d) \<in> measure (\<lambda>d. nat (day d))"
    using daysinmonth_ge28 [of d] by simp
next
  fix d d1 :: DateTime
  assume "daysinmonth d < day d" and "d1 = d\<lparr>day := day d - daysinmonth d, month := month d + 1\<rparr>"
  then show "(d1, d) \<in> measure (\<lambda>d. nat (day d))"
    using daysinmonth_ge28 [of d] by simp
qed

declare fixDay_loop.simps [simp del]

definition fixDay :: "DateTime \<Rightarrow> DateTime" where
  "fixDay d =
     (if day d \<le> 28 then d
      else if day d \<le> daysinmonth d then d
      else fixDay_loop d)"

definition addWeekly :: "int \<Rightarrow> int \<Rightarrow> DateTime \<Rightarrow> DateTime" where
  "addWeekly days wkst d =
     (let wd = DateTime_getWeekday d
      in fixDay (if wkst > wd
                 then d\<lparr>day := day d + (- (wd + 1 + (6 - wkst)) + days * 7)\<rparr>
                 else d\<lparr>day := day d + (- (wd - wkst) + days * 7)\<rparr>))"

definition addDaily :: "int \<Rightarrow> DateTime \<Rightarrow> DateTime" where
  "addDaily days d = fixDay (d\<lparr>day := day d + days\<rparr>)"

section \<open>Recurrence options (parseOptions)\<close>

definition YEARLY :: int where "YEARLY = 0"
definition MONTHLY :: int where "MONTHLY = 1"
definition WEEKLY :: int where "WEEKLY = 2"
definition DAILY :: int where "DAILY = 3"
definition HOURLY :: int where "HOURLY = 4"
definition MINUTELY :: int where "MINUTELY = 5"
definition SECONDLY :: int where "SECONDLY = 6"

definition freqIsDailyOrGreater :: "int \<Rightarrow> bool" where
  "freqIsDailyOrGreater f = (f < HOURLY)"

text \<open>A \<open>Weekday\<close> object: the index (Monday is 0) and the optional ordinal \<open>n\<close>.\<close>

datatype Weekday = Weekday (weekday: int) (wd_n: "int option")

datatype WeekdayStr = MO | TU | WE | TH | FR | SA | SU

definition ALL_WEEKDAYS :: "WeekdayStr list" where
  "ALL_WEEKDAYS = [MO, TU, WE, TH, FR, SA, SU]"

fun indexOf :: "'a list \<Rightarrow> 'a \<Rightarrow> int" where
  "indexOf [] v = - 1"
| "indexOf (x # xs) v = (if x = v then 0 else (let i = indexOf xs v in if i < 0 then i else i + 1))"

definition fromStr :: "WeekdayStr \<Rightarrow> Weekday" where
  "fromStr str = Weekday (indexOf ALL_WEEKDAYS str) None"

datatype ByWeekday = WdNum int | WdStr WeekdayStr | WdObj Weekday

datatype 'a one_or_many = One 'a | Many "'a list"

datatype JSDate = ValidDate int | InvalidDate

datatype wkst_value = WkstNum int | WkstObj Weekday

text \<open>
  The options object handed to the constructor. A key is absent (or holds \<open>null\<close> or
  \<open>undefined\<close>): \<open>None\<close>; or it holds a value of its declared type. The keys
  \<open>freq\<close> and \<open>interval\<close>, whose declared type has no \<open>null\<close>, are absent or
  numbers. \<open>o_other_keys\<close> lists the keys of the object that are no option names.
\<close>

record Options =
  o_freq :: "int option"
  o_dtstart :: "JSDate option"
  o_interval :: "int option"
  o_wkst :: "wkst_value option"
  o_count :: "int option"
  o_until :: "JSDate option"
  o_tzid :: "string option"
  o_bysetpos :: "int one_or_many option"
  o_bymonth :: "int one_or_many option"
  o_bymonthday :: "int one_or_many option"
  o_byyearday :: "int one_or_many option"
  o_byweekno :: "int one_or_many option"
  o_byweekday :: "ByWeekday one_or_many option"
  o_byhour :: "int one_or_many option"
  o_byminute :: "int one_or_many option"
  o_bysecond :: "int one_or_many option"
  o_byeaster :: "int option"
  o_other_keys :: "string list"

definition no_options :: Options where
  "no_options =
     \<lparr> o_freq = None, o_dtstart = None, o_interval = None, o_wkst = None, o_count = None,
       o_until = None, o_tzid = None, o_bysetpos = None, o_bymonth = None,
       o_bymonthday = None, o_byyearday = None, o_byweekno = None, o_byweekday = None,
       o_byhour = None, o_byminute = None, o_bysecond = None, o_byeaster = None,
       o_other_keys = [] \<rparr>"

text \<open>The resolved options, as \<open>parseOptions\<close> returns them and \<open>iter\<close> reads them.\<close>

record ParsedOptions =
  freq :: int
  dtstart :: int
  interval :: int
  wkst :: int
  count :: "int option"
  until :: "int option"
  tzid :: "string option"
  bysetpos :: "int list option"
  bymonth :: "int list option"
  bymonthday :: "int list option"
  bynmonthday :: "int list option"
  byyearday :: "int list option"
  byweekno :: "int list option"
  byweekday :: "int list option"
  bynweekday :: "(int \<times> int) list option"
  byhour :: "int list option"
  byminute :: "int list option"
  bysecond :: "int list option"
  byeaster :: "int option"

datatype rrule_error =
    Invalid_options
  | Invalid_frequency
  | Bysetpos_out_of_range
  | Invalid_date_passed

definition isInvalidDate :: "JSDate option \<Rightarrow> bool" where
  "isInvalidDate d = (d = Some InvalidDate)"

definition initializeOptions :: "Options \<Rightarrow> rrule_error + Options" where
  "initializeOptions options =
     (if o_other_keys options \<noteq> [] \<or> isInvalidDate (o_dtstart options)
         \<or> isInvalidDate (o_until options)
      then Inl Invalid_options else Inr options)"

text \<open>\<open>Boolean(x)\<close>, \<open>notEmpty(x)\<close> and \<open>toArray\<close> on a number, an array or nothing.\<close>

definition js_Boolean :: "int one_or_many option \<Rightarrow> bool" where
  "js_Boolean x = (case x of None \<Rightarrow> False | Some (One v) \<Rightarrow> v \<noteq> 0 | Some (Many _) \<Rightarrow> True)"

definition js_notEmpty :: "'a one_or_many option \<Rightarrow> bool" where
  "js_notEmpty x = (case x of None \<Rightarrow> False | Some (One _) \<Rightarrow> True | Some (Many xs) \<Rightarrow> xs \<noteq> [])"

definition as_array :: "'a one_or_many option \<Rightarrow> 'a list option" where
  "as_array x = (case x of None \<Rightarrow> None | Some (One v) \<Rightarrow> Some [v] | Some (Many xs) \<Rightarrow> Some xs)"

definition dateValue :: "JSDate \<Rightarrow> int" where
  "dateValue d = (case d of ValidDate t \<Rightarrow> t | InvalidDate \<Rightarrow> 0)"

definition bysetpos_ok :: "int \<Rightarrow> bool" where
  "bysetpos_ok v = (\<not> (v = 0 \<or> \<not> (v \<ge> - 366 \<and> v \<le> 366)))"

text \<open>Whether some day-selecting rule is given (the negated test before the defaults).\<close>

definition has_day_rule :: "Options \<Rightarrow> bool" where
  "has_day_rule options =
     (js_Boolean (o_byweekno options) \<or> js_notEmpty (o_byweekno options)
      \<or> js_notEmpty (o_byyearday options)
      \<or> js_Boolean (o_bymonthday options) \<or> js_notEmpty (o_bymonthday options)
      \<or> o_byweekday options \<noteq> None
      \<or> o_byeaster options \<noteq> None)"

text \<open>The weekday items of an array: numbers and names are weekdays; a \<open>Weekday\<close>
  without ordinal, or under a frequency finer than monthly, is its weekday too.\<close>

fun split_weekdays :: "int \<Rightarrow> ByWeekday list \<Rightarrow> int list \<times> (int \<times> int) list" where
  "split_weekdays f [] = ([], [])"
| "split_weekdays f (wday # rest) =
     (let (byweekday, bynweekday) = split_weekdays f rest
      in case wday of
           WdNum v \<Rightarrow> (v # byweekday, bynweekday)
         | WdStr s \<Rightarrow> (weekday (fromStr s) # byweekday, bynweekday)
         | WdObj w \<Rightarrow>
             (case wd_n w of
                None \<Rightarrow> (weekday w # byweekday, bynweekday)
              | Some k \<Rightarrow>
                  if k = 0 \<or> f > MONTHLY then (weekday w # byweekday, bynweekday)
                  else (byweekday, (weekday w, k) # bynweekday)))"

definition nonempty_or_null :: "'a list \<Rightarrow> 'a list option" where
  "nonempty_or_null xs = (if xs \<noteq> [] then Some xs else None)"

text \<open>The frequency after the \<open>byeaster\<close> override, and the start (the clock,
  cut to the second, when none is given).\<close>

definition resolved_freq :: "Options \<Rightarrow> int" where
  "resolved_freq opts =
     (if o_byeaster opts \<noteq> None then YEARLY
      else (case o_freq opts of None \<Rightarrow> YEARLY | Some v \<Rightarrow> v))"

definition resolved_dtstart :: "host \<Rightarrow> Options \<Rightarrow> int" where
  "resolved_dtstart h opts =
     (case o_dtstart opts of
        None \<Rightarrow> now h - now h mod 1000
      | Some d \<Rightarrow> dateValue d)"

definition resolved_wkst :: "Options \<Rightarrow> int" where
  "resolved_wkst opts =
     (case o_wkst opts of
        None \<Rightarrow> 0
      | Some (WkstNum v) \<Rightarrow> v
      | Some (WkstObj w) \<Rightarrow> weekday w)"

text \<open>The \<open>switch\<close> that fills in a day rule from the start when none is given.\<close>

definition default_bymonth :: "int \<Rightarrow> int \<Rightarrow> Options \<Rightarrow> int one_or_many option" where
  "default_bymonth f start opts =
     (if \<not> has_day_rule opts \<and> f = YEARLY \<and> \<not> js_Boolean (o_bymonth opts)
      then Some (One (MonthFromTime start + 1)) else o_bymonth opts)"

definition default_bymonthday :: "int \<Rightarrow> int \<Rightarrow> Options \<Rightarrow> int one_or_many option" where
  "default_bymonthday f start opts =
     (if \<not> has_day_rule opts \<and> (f = YEARLY \<or> f = MONTHLY)
      then Some (One (DateFromTime start)) else o_bymonthday opts)"

definition default_byweekday :: "int \<Rightarrow> int \<Rightarrow> Options \<Rightarrow> ByWeekday one_or_many option" where
  "default_byweekday f start opts =
     (if \<not> has_day_rule opts \<and> f = WEEKLY
      then Some (Many [WdNum (getWeekday start)]) else o_byweekday opts)"

text \<open>The blocks \<open>bymonthday\<close>, \<open>byweekday / bynweekday\<close> and \<open>byhour\<close>,
  \<open>byminute\<close>, \<open>bysecond\<close>.\<close>

definition parse_bymonthday :: "int one_or_many option \<Rightarrow> int list \<times> int list" where
  "parse_bymonthday v =
     (case v of
        None \<Rightarrow> ([], [])
      | Some (Many vs) \<Rightarrow> (filter (\<lambda>v. v > 0) vs, filter (\<lambda>v. v < 0) vs)
      | Some (One v) \<Rightarrow> if v < 0 then ([], [v]) else ([v], []))"

definition parse_byweekday ::
  "int \<Rightarrow> ByWeekday one_or_many option \<Rightarrow> int list option \<times> (int \<times> int) list option" where
  "parse_byweekday f v =
     (case v of
        None \<Rightarrow> (None, None)
      | Some (One (WdNum v)) \<Rightarrow> (Some [v], None)
      | Some (One (WdStr s)) \<Rightarrow> (Some [weekday (fromStr s)], None)
      | Some (One (WdObj w)) \<Rightarrow>
          (case wd_n w of
             None \<Rightarrow> (Some [weekday w], None)
           | Some k \<Rightarrow>
               if k = 0 \<or> f > MONTHLY then (Some [weekday w], None)
               else (None, Some [(weekday w, k)]))
      | Some (Many ws) \<Rightarrow>
          (let (a, b) = split_weekdays f ws
           in (nonempty_or_null a, nonempty_or_null b)))"

definition parse_bytime :: "bool \<Rightarrow> int \<Rightarrow> int one_or_many option \<Rightarrow> int list option" where
  "parse_bytime coarser from_start v =
     (case v of
        None \<Rightarrow> if coarser then Some [from_start] else None
      | Some x \<Rightarrow> as_array (Some x))"

definition bysetpos_invalid :: "int list option \<Rightarrow> bool" where
  "bysetpos_invalid setpos =
     (case setpos of None \<Rightarrow> False | Some vs \<Rightarrow> \<exists>v \<in> set vs. \<not> bysetpos_ok v)"

definition resolve :: "host \<Rightarrow> Options \<Rightarrow> ParsedOptions" where
  "resolve h opts =
     (let f = resolved_freq opts; start = resolved_dtstart h opts
      in \<lparr> freq = f, dtstart = start,
           interval = (case o_interval opts of None \<Rightarrow> 1 | Some v \<Rightarrow> v),
           wkst = resolved_wkst opts, count = o_count opts,
           until = map_option dateValue (o_until opts),
           tzid = o_tzid opts, bysetpos = as_array (o_bysetpos opts),
           bymonth = as_array (default_bymonth f start opts),
           bymonthday = Some (fst (parse_bymonthday (default_bymonthday f start opts))),
           bynmonthday = Some (snd (parse_bymonthday (default_bymonthday f start opts))),
           byyearday = as_array (o_byyearday opts),
           byweekno = as_array (o_byweekno opts),
           byweekday = fst (parse_byweekday f (default_byweekday f start opts)),
           bynweekday = snd (parse_byweekday f (default_byweekday f start opts)),
           byhour = parse_bytime (f < HOURLY) (HourFromTime start) (o_byhour opts),
           byminute = parse_bytime (f < MINUTELY) (MinFromTime start) (o_byminute opts),
           bysecond = parse_bytime (f < SECONDLY) (SecFromTime start) (o_bysecond opts),
           byeaster = o_byeaster opts \<rparr>)"

text \<open>\<open>parseOptions\<close>: the three checks that throw, in the order of the source, then
  the resolved options.\<close>

definition parseOptions :: "host \<Rightarrow> Options \<Rightarrow> rrule_error + ParsedOptions" where
  "parseOptions h options =
     (case initializeOptions options of
        Inl e \<Rightarrow> Inl e
      | Inr opts \<Rightarrow>
          if \<not> (0 \<le> resolved_freq opts \<and> resolved_freq opts \<le> 6) then Inl Invalid_frequency
          else if bysetpos_invalid (as_array (o_bysetpos opts)) then Inl Bysetpos_out_of_range
          else Inr (resolve h opts))"

section \<open>Date masks\<close>

text \<open>Every msk is 7 days longer to handle cross-year weekly periods.\<close>

definition M365MASK :: "int list" where
  "M365MASK = repeat 1 31 @ repeat 2 28 @ repeat 3 31 @ repeat 4 30 @ repeat 5 31 @ repeat 6 30
     @ repeat 7 31 @ repeat 8 31 @ repeat 9 30 @ repeat 10 31 @ repeat 11 30 @ repeat 12 31
     @ repeat 1 7"

definition M366MASK :: "int list" where
  "M366MASK = repeat 1 31 @ repeat 2 29 @ repeat 3 31 @ repeat 4 30 @ repeat 5 31 @ repeat 6 30
     @ repeat 7 31 @ repeat 8 31 @ repeat 9 30 @ repeat 10 31 @ repeat 11 30 @ repeat 12 31
     @ repeat 1 7"

definition M28 :: "int list" where "M28 = js_range 1 29"
definition M29 :: "int list" where "M29 = js_range 1 30"
definition M30 :: "int list" where "M30 = js_range 1 31"
definition M31 :: "int list" where "M31 = js_range 1 32"

definition MDAY366MASK :: "int list" where
  "MDAY366MASK = M31 @ M29 @ M31 @ M30 @ M31 @ M30 @ M31 @ M31 @ M30 @ M31 @ M30 @ M31
     @ js_slice M31 0 7"

definition MDAY365MASK :: "int list" where
  "MDAY365MASK = M31 @ M28 @ M31 @ M30 @ M31 @ M30 @ M31 @ M31 @ M30 @ M31 @ M30 @ M31
     @ js_slice M31 0 7"

definition NM28 :: "int list" where "NM28 = js_range (- 28) 0"
definition NM29 :: "int list" where "NM29 = js_range (- 29) 0"
definition NM30 :: "int list" where "NM30 = js_range (- 30) 0"
definition NM31 :: "int list" where "NM31 = js_range (- 31) 0"

definition NMDAY366MASK :: "int list" where
  "NMDAY366MASK = NM31 @ NM29 @ NM31 @ NM30 @ NM31 @ NM30 @ NM31 @ NM31 @ NM30 @ NM31 @ NM30
     @ NM31 @ js_slice NM31 0 7"

definition NMDAY365MASK :: "int list" where
  "NMDAY365MASK = NM31 @ NM28 @ NM31 @ NM30 @ NM31 @ NM30 @ NM31 @ NM31 @ NM30 @ NM31 @ NM30
     @ NM31 @ js_slice NM31 0 7"

definition M366RANGE :: "int list" where
  "M366RANGE = [0, 31, 60, 91, 121, 152, 182, 213, 244, 274, 305, 335, 366]"

definition M365RANGE :: "int list" where
  "M365RANGE = [0, 31, 59, 90, 120, 151, 181, 212, 243, 273, 304, 334, 365]"

definition WDAYMASK :: "int list" where
  "WDAYMASK = concat (replicate 55 (js_range 0 7))"

record YearInfo =
  yearlen :: int
  nextyearlen :: int
  yearordinal :: int
  yearweekday :: int
  mmask :: "int list"
  mdaymask :: "int list"
  nmdaymask :: "int list"
  wdaymask :: "int list"
  mrange :: "int list"
  wnomask :: "int list option"

text \<open>Seven rounds at most of: mark day \<open>i\<close>, step, stop at the start of a week.\<close>

fun mark_week :: "nat \<Rightarrow> int list \<Rightarrow> int \<Rightarrow> int list \<Rightarrow> int \<Rightarrow> int list" where
  "mark_week 0 wdmask wk msk i = msk"
| "mark_week (Suc k) wdmask wk msk i =
     (let msk' = js_set 0 msk i 1
      in if js_nth wdmask (i + 1) = Some wk then msk' else mark_week k wdmask wk msk' (i + 1))"

definition baseYearMasks :: "int \<Rightarrow> YearInfo" where
  "baseYearMasks y =
     (let len = (if isLeapYear y then 366 else 365 :: int);
          firstyday = Date_UTC y 0 1 0 0 0 0;
          wday = getWeekday firstyday
      in if len = 365
         then \<lparr> yearlen = 0, nextyearlen = 0, yearordinal = 0, yearweekday = 0,
                mmask = M365MASK, mdaymask = MDAY365MASK, nmdaymask = NMDAY365MASK,
                wdaymask = js_slice WDAYMASK wday (int (length WDAYMASK)), mrange = M365RANGE,
                wnomask = None \<rparr>
         else \<lparr> yearlen = 0, nextyearlen = 0, yearordinal = 0, yearweekday = 0,
                mmask = M366MASK, mdaymask = MDAY366MASK, nmdaymask = NMDAY366MASK,
                wdaymask = js_slice WDAYMASK wday (int (length WDAYMASK)), mrange = M366RANGE,
                wnomask = None \<rparr>)"

text \<open>The loop over \<open>byweekno\<close> of \<open>rebuildYear\<close>.\<close>

fun mark_weeknos ::
  "int list \<Rightarrow> int \<Rightarrow> int \<Rightarrow> int \<Rightarrow> int \<Rightarrow> int list \<Rightarrow> int list \<Rightarrow> int list" where
  "mark_weeknos wdmask wk numweeks no1wkst firstwkst [] msk = msk"
| "mark_weeknos wdmask wk numweeks no1wkst firstwkst (n0 # rest) msk =
     (let n = (if n0 < 0 then n0 + (numweeks + 1) else n0)
      in if \<not> (n > 0 \<and> n \<le> numweeks)
         then mark_weeknos wdmask wk numweeks no1wkst firstwkst rest msk
         else
           let i = (if n > 1
                    then (if no1wkst \<noteq> firstwkst
                          then no1wkst + (n - 1) * 7 - (7 - firstwkst)
                          else no1wkst + (n - 1) * 7)
                    else no1wkst)
           in mark_weeknos wdmask wk numweeks no1wkst firstwkst rest
                (mark_week 7 wdmask wk msk i))"

definition rebuildYear :: "host \<Rightarrow> int \<Rightarrow> ParsedOptions \<Rightarrow> YearInfo" where
  "rebuildYear h y options =
     (let firstyday = Date_UTC y 0 1 0 0 0 0;
          len = (if isLeapYear y then 366 else 365);
          nextlen = (if isLeapYear (y + 1) then 366 else 365);
          ordinal = toOrdinal h firstyday;
          ywd = getWeekday firstyday;
          result = (baseYearMasks y)\<lparr>yearlen := len, nextyearlen := nextlen,
                      yearordinal := ordinal, yearweekday := ywd, wnomask := None\<rparr>
      in if empty1 (byweekno options) then result
         else
           let weeknos = (case byweekno options of None \<Rightarrow> [] | Some ns \<Rightarrow> ns);
               mask0 = repeat 0 (len + 7);
               firstwkst = pymod (7 - ywd + wkst options) 7;
               no1wkst = (if firstwkst \<ge> 4 then 0 else firstwkst);
               wyearlen = (if firstwkst \<ge> 4 then len + pymod (ywd - wkst options) 7
                           else len - firstwkst);
               numweeks = wyearlen div 7 + pymod wyearlen 7 div 4;
               mask1 = mark_weeknos (wdaymask result) (wkst options) numweeks no1wkst firstwkst
                         weeknos mask0;
               mask2 =
                 (if js_includes (byweekno options) 1
                  then (let i = (if no1wkst \<noteq> firstwkst
                                 then no1wkst + numweeks * 7 - (7 - firstwkst)
                                 else no1wkst + numweeks * 7)
                        in if i < len then mark_week 7 (wdaymask result) (wkst options) mask1 i
                           else mask1)
                  else mask1);
               mask3 =
                 (if no1wkst \<noteq> 0
                  then (let lnumweeks =
                              (if \<not> js_includes (byweekno options) (- 1)
                               then (let lyearweekday = getWeekday (Date_UTC (y - 1) 0 1 0 0 0 0);
                                         lno1wkst = pymod (7 - lyearweekday + wkst options) 7;
                                         lyearlen = (if isLeapYear (y - 1) then 366 else 365);
                                         weekst = (if lno1wkst \<ge> 4
                                                   then lyearlen + pymod (lyearweekday - wkst options) 7
                                                   else len - no1wkst)
                                     in 52 + pymod weekst 7 div 4)
                               else - 1)
                        in if js_includes (byweekno options) lnumweeks
                           then foldl (\<lambda>m i. js_set 0 m i 1) mask2 (js_range 0 no1wkst)
                           else mask2)
                  else mask2)
           in result\<lparr>wnomask := Some mask3\<rparr>)"

record MonthInfo =
  lastyear :: int
  lastmonth :: int
  nwdaymask :: "int list"

text \<open>The mark of one \<open>(weekday, n)\<close> pair in one range; arithmetic on a missing
  entry gives \<open>NaN\<close>, which fails the range test.\<close>

definition nth_weekday_index :: "int list \<Rightarrow> int option \<Rightarrow> int option \<Rightarrow> int \<times> int \<Rightarrow> int option" where
  "nth_weekday_index wdmask first_opt last_opt wn =
     (case (first_opt, last_opt) of
        (Some first, Some lst) \<Rightarrow>
          (let wday = fst wn; n = snd wn;
               i0 = (if n < 0 then lst + (n + 1) * 7 else first + (n - 1) * 7)
           in case js_nth wdmask i0 of
                None \<Rightarrow> None
              | Some w \<Rightarrow>
                  (let i = (if n < 0 then i0 - pymod (w - wday) 7 else i0 + pymod (7 - w + wday) 7)
                   in if first \<le> i \<and> i \<le> lst then Some i else None))
      | _ \<Rightarrow> None)"

definition mark_range :: "int list \<Rightarrow> (int \<times> int) list \<Rightarrow> int list \<Rightarrow> int list \<Rightarrow> int list" where
  "mark_range wdmask nweekdays msk rang =
     (let first_opt = js_nth rang 0;
          last_opt = map_option (\<lambda>v. v - 1) (js_nth rang 1)
      in foldl (\<lambda>m wn. case nth_weekday_index wdmask first_opt last_opt wn of
                          None \<Rightarrow> m
                        | Some i \<Rightarrow> js_set 0 m i 1) msk nweekdays)"

definition rebuildMonth ::
  "int \<Rightarrow> int \<Rightarrow> int \<Rightarrow> int list \<Rightarrow> int list \<Rightarrow> ParsedOptions \<Rightarrow> MonthInfo" where
  "rebuildMonth y m len mrng wdmask options =
     (let ranges =
            (if freq options = YEARLY
             then (if empty1 (bymonth options) then [[0, len]]
                   else map (\<lambda>mo. js_slice mrng (mo - 1) (mo + 1))
                          (case bymonth options of None \<Rightarrow> [] | Some ms \<Rightarrow> ms))
             else if freq options = MONTHLY then [js_slice mrng (m - 1) (m + 1)]
             else [])
      in if ranges = [] then \<lparr> lastyear = y, lastmonth = m, nwdaymask = [] \<rparr>
         else \<lparr> lastyear = y, lastmonth = m,
                nwdaymask = foldl (mark_range wdmask
                                     (case bynweekday options of None \<Rightarrow> [] | Some ws \<Rightarrow> ws))
                              (repeat 0 len) ranges \<rparr>)"

definition easter :: "int \<Rightarrow> int \<Rightarrow> int list" where
  "easter y offset =
     (let a = js_rem y 19;
          b = y div 100;
          c = js_rem y 100;
          d = b div 4;
          e = js_rem b 4;
          f = (b + 8) div 25;
          g = (b - f + 1) div 3;
          h = js_rem (19 * a + b - d - g + 15) 30;
          i = c div 4;
          k = js_rem c 4;
          l = js_rem (32 + 2 * e + 2 * i - h - k) 7;
          m = (a + 11 * h + 22 * l) div 451;
          mo = (h + l - 7 * m + 114) div 31;
          dy = js_rem (h + l - 7 * m + 114) 31 + 1;
          date = Date_UTC y (mo - 1) (dy + offset) 0 0 0 0;
          yearStart = Date_UTC y 0 1 0 0 0 0
      in [- ((- (date - yearStart)) div (1000 * 60 * 60 * 24))])"

section \<open>Iterinfo\<close>

record Iterinfo =
  yearinfo :: YearInfo
  monthinfo :: "MonthInfo option"
  eastermask :: "int list option"

definition ii_lastyear :: "Iterinfo \<Rightarrow> int option" where
  "ii_lastyear ii = map_option lastyear (monthinfo ii)"

definition ii_lastmonth :: "Iterinfo \<Rightarrow> int option" where
  "ii_lastmonth ii = map_option lastmonth (monthinfo ii)"

definition ii_nwdaymask :: "Iterinfo \<Rightarrow> int list" where
  "ii_nwdaymask ii = (case monthinfo ii of None \<Rightarrow> [] | Some mi \<Rightarrow> nwdaymask mi)"

definition rebuild :: "host \<Rightarrow> ParsedOptions \<Rightarrow> int \<Rightarrow> int \<Rightarrow> Iterinfo \<Rightarrow> Iterinfo" where
  "rebuild h options y m ii =
     (let yi = (if Some y \<noteq> ii_lastyear ii then rebuildYear h y options else yearinfo ii);
          mi = (if notEmpty (bynweekday options)
                   \<and> (Some m \<noteq> ii_lastmonth ii \<or> Some y \<noteq> ii_lastyear ii)
                then Some (rebuildMonth y m (yearlen yi) (mrange yi) (wdaymask yi) options)
                else monthinfo ii);
          em = (case byeaster options of
                  None \<Rightarrow> eastermask ii
                | Some offset \<Rightarrow> Some (easter y offset))
      in \<lparr> yearinfo = yi, monthinfo = mi, eastermask = em \<rparr>)"

text \<open>A fresh \<open>Iterinfo\<close> has no year and no month yet; its first \<open>rebuild\<close> builds the
  year, so the year held before is never read.\<close>

definition no_yearinfo :: YearInfo where
  "no_yearinfo =
     \<lparr> yearlen = 0, nextyearlen = 0, yearordinal = 0, yearweekday = 0, mmask = [],
       mdaymask = [], nmdaymask = [], wdaymask = [], mrange = [], wnomask = None \<rparr>"

definition new_Iterinfo :: Iterinfo where
  "new_Iterinfo = \<lparr> yearinfo = no_yearinfo, monthinfo = None, eastermask = None \<rparr>"

text \<open>
  A day set is the array \<open>set\<close> with the bounds \<open>start\<close> and \<open>end\<close>. Its entries are
  read and written by index only, so it is the map from an index to the day stored
  there; \<open>null\<close> and a missing entry are \<open>None\<close>.
\<close>

type_synonym dayset = "int \<Rightarrow> int option"

definition fill_days :: "int \<Rightarrow> int \<Rightarrow> dayset" where
  "fill_days a b = (\<lambda>i. if a \<le> i \<and> i < b then Some i else None)"

definition ydayset :: "Iterinfo \<Rightarrow> dayset \<times> int \<times> int" where
  "ydayset ii = (fill_days 0 (yearlen (yearinfo ii)), 0, yearlen (yearinfo ii))"

text \<open>With a month outside 1 to 12 the bounds are \<open>undefined\<close> and the loops over the
  days do not run: the empty range.\<close>

definition mdayset :: "Iterinfo \<Rightarrow> int \<Rightarrow> dayset \<times> int \<times> int" where
  "mdayset ii m =
     (case (js_nth (mrange (yearinfo ii)) (m - 1), js_nth (mrange (yearinfo ii)) m) of
        (Some start, Some end) \<Rightarrow> (fill_days start end, start, end)
      | _ \<Rightarrow> (fill_days 0 0, 0, 0))"

fun week_end :: "nat \<Rightarrow> int list \<Rightarrow> int \<Rightarrow> int \<Rightarrow> int" where
  "week_end 0 wdmask wk i = i"
| "week_end (Suc k) wdmask wk i =
     (if js_nth wdmask (i + 1) = Some wk then i + 1 else week_end k wdmask wk (i + 1))"

definition wdayset :: "host \<Rightarrow> ParsedOptions \<Rightarrow> Iterinfo \<Rightarrow> int \<Rightarrow> int \<Rightarrow> int \<Rightarrow> dayset \<times> int \<times> int" where
  "wdayset h options ii y m d =
     (let start = toOrdinal h (Date_UTC y (m - 1) d 0 0 0 0) - yearordinal (yearinfo ii);
          i = week_end 7 (wdaymask (yearinfo ii)) (wkst options) start
      in (fill_days start i, start, i))"

definition ddayset :: "host \<Rightarrow> Iterinfo \<Rightarrow> int \<Rightarrow> int \<Rightarrow> int \<Rightarrow> dayset \<times> int \<times> int" where
  "ddayset h ii y m d =
     (let i = toOrdinal h (Date_UTC y (m - 1) d 0 0 0 0) - yearordinal (yearinfo ii)
      in (fill_days i (i + 1), i, i + 1))"

definition getdayset ::
  "host \<Rightarrow> ParsedOptions \<Rightarrow> Iterinfo \<Rightarrow> int \<Rightarrow> int \<Rightarrow> int \<Rightarrow> int \<Rightarrow> dayset \<times> int \<times> int" where
  "getdayset h options ii f y m d =
     (if f = YEARLY then ydayset ii
      else if f = MONTHLY then mdayset ii m
      else if f = WEEKLY then wdayset h options ii y m d
      else ddayset h ii y m d)"

text \<open>The time sets. Calling \<open>forEach\<close> or \<open>map\<close> on a list that is \<open>null\<close> throws;
  no time set is returned then (\<open>None\<close>).\<close>

definition stimeset :: "int \<Rightarrow> int \<Rightarrow> int \<Rightarrow> int \<Rightarrow> Time list" where
  "stimeset hr mi sec ms = [\<lparr> hour = hr, minute = mi, second = sec, millisecond = ms \<rparr>]"

definition mtimeset :: "ParsedOptions \<Rightarrow> int \<Rightarrow> int \<Rightarrow> int \<Rightarrow> Time list option" where
  "mtimeset options hr mi ms =
     (case bysecond options of
        None \<Rightarrow> None
      | Some secs \<Rightarrow>
          Some (sort_key Time_getTime
                  (map (\<lambda>sec. \<lparr> hour = hr, minute = mi, second = sec, millisecond = ms \<rparr>) secs)))"

definition htimeset :: "ParsedOptions \<Rightarrow> int \<Rightarrow> int \<Rightarrow> Time list option" where
  "htimeset options hr ms =
     (case (byminute options, bysecond options) of
        (Some mins, Some secs) \<Rightarrow>
          Some (sort_key Time_getTime
                  (concat (map (\<lambda>mi. case mtimeset options hr mi ms of
                                        None \<Rightarrow> []
                                      | Some ts \<Rightarrow> ts) mins)))
      | (Some mins, None) \<Rightarrow> if mins = [] then Some [] else None
      | (None, _) \<Rightarrow> None)"

definition gettimeset :: "ParsedOptions \<Rightarrow> int \<Rightarrow> int \<Rightarrow> int \<Rightarrow> int \<Rightarrow> int \<Rightarrow> Time list option" where
  "gettimeset options f hr mi sec ms =
     (if f = HOURLY then htimeset options hr ms
      else if f = MINUTELY then mtimeset options hr mi ms
      else if f = SECONDLY then Some (stimeset hr mi sec ms)
      else None)"

definition buildTimeset :: "ParsedOptions \<Rightarrow> Time list option" where
  "buildTimeset opts =
     (let millisecondModulo = js_rem (dtstart opts) 1000
      in if \<not> freqIsDailyOrGreater (freq opts) then Some []
         else
           (case byhour opts of
              None \<Rightarrow> None
            | Some hours \<Rightarrow>
                if hours = [] then Some []
                else
                  (case byminute opts of
                     None \<Rightarrow> None
                   | Some mins \<Rightarrow>
                       if mins = [] then Some []
                       else
                         (case bysecond opts of
                            None \<Rightarrow> None
                          | Some secs \<Rightarrow>
                              Some (concat (map (\<lambda>hr.
                                      concat (map (\<lambda>mi.
                                        map (\<lambda>sec. \<lparr> hour = hr, minute = mi, second = sec,
                                                       millisecond = millisecondModulo \<rparr>) secs)
                                        mins)) hours))))))"

definition makeTimeset :: "ParsedOptions \<Rightarrow> DateTime \<Rightarrow> Time list option" where
  "makeTimeset options counterDate =
     (let f = freq options
      in if freqIsDailyOrGreater f then buildTimeset options
         else if (f \<ge> HOURLY \<and> notEmpty (byhour options)
                    \<and> \<not> js_includes (byhour options) (hour counterDate))
                 \<or> (f \<ge> MINUTELY \<and> notEmpty (byminute options)
                    \<and> \<not> js_includes (byminute options) (minute counterDate))
                 \<or> (f \<ge> SECONDLY \<and> notEmpty (bysecond options)
                    \<and> \<not> js_includes (bysecond options) (second counterDate))
         then Some []
         else gettimeset options f (hour counterDate) (minute counterDate) (second counterDate)
                (millisecond counterDate))"

section \<open>Sub-daily steps of the calendar clock\<close>

text \<open>
  The loops of \<open>addHours\<close>, \<open>addMinutes\<close> and \<open>addSeconds\<close> run until the clock
  meets the \<open>by\<close> lists, which may be never: they take fuel, one unit for a round,
  and give \<open>None\<close> when it is used up.
\<close>

fun addHours_loop :: "nat \<Rightarrow> int \<Rightarrow> int list option \<Rightarrow> DateTime \<Rightarrow> DateTime option" where
  "addHours_loop fuel hours byhr d =
     (if fuel = 0 then None
      else
        let d1 = d\<lparr>hour := hour d + hours\<rparr>;
            dayDiv = fst (divmod (hour d1) 24);
            hourMod = snd (divmod (hour d1) 24);
            d2 = (if dayDiv \<noteq> 0 then addDaily dayDiv (d1\<lparr>hour := hourMod\<rparr>) else d1)
        in if empty1 byhr \<or> js_includes byhr (hour d2) then Some d2
           else addHours_loop (fuel - 1) hours byhr d2)"

declare addHours_loop.simps [simp del]

definition addHours :: "nat \<Rightarrow> int \<Rightarrow> bool \<Rightarrow> int list option \<Rightarrow> DateTime \<Rightarrow> DateTime option" where
  "addHours fuel hours filtered byhr d =
     addHours_loop fuel hours byhr
       (if filtered then d\<lparr>hour := hour d + ((23 - hour d) div hours) * hours\<rparr> else d)"

fun addMinutes_loop ::
  "nat \<Rightarrow> int \<Rightarrow> int list option \<Rightarrow> int list option \<Rightarrow> DateTime \<Rightarrow> DateTime option" where
  "addMinutes_loop fuel minutes byhr bymin d =
     (if fuel = 0 then None
      else
        let d1 = d\<lparr>minute := minute d + minutes\<rparr>;
            hourDiv = fst (divmod (minute d1) 60);
            minuteMod = snd (divmod (minute d1) 60)
        in case (if hourDiv \<noteq> 0 then addHours fuel hourDiv False byhr (d1\<lparr>minute := minuteMod\<rparr>)
                 else Some d1) of
             None \<Rightarrow> None
           | Some d2 \<Rightarrow>
               if (empty1 byhr \<or> js_includes byhr (hour d2))
                  \<and> (empty1 bymin \<or> js_includes bymin (minute d2))
               then Some d2
               else addMinutes_loop (fuel - 1) minutes byhr bymin d2)"

declare addMinutes_loop.simps [simp del]

definition addMinutes ::
  "nat \<Rightarrow> int \<Rightarrow> bool \<Rightarrow> int list option \<Rightarrow> int list option \<Rightarrow> DateTime \<Rightarrow> DateTime option" where
  "addMinutes fuel minutes filtered byhr bymin d =
     addMinutes_loop fuel minutes byhr bymin
       (if filtered
        then d\<lparr>minute := minute d + ((1439 - (hour d * 60 + minute d)) div minutes) * minutes\<rparr>
        else d)"

fun addSeconds_loop ::
  "nat \<Rightarrow> int \<Rightarrow> int list option \<Rightarrow> int list option \<Rightarrow> int list option \<Rightarrow> DateTime
     \<Rightarrow> DateTime option" where
  "addSeconds_loop fuel seconds byhr bymin bysec d =
     (if fuel = 0 then None
      else
        let d1 = d\<lparr>second := second d + seconds\<rparr>;
            minuteDiv = fst (divmod (second d1) 60);
            secondMod = snd (divmod (second d1) 60)
        in case (if minuteDiv \<noteq> 0
                 then addMinutes fuel minuteDiv False byhr bymin (d1\<lparr>second := secondMod\<rparr>)
                 else Some d1) of
             None \<Rightarrow> None
           | Some d2 \<Rightarrow>
               if (empty1 byhr \<or> js_includes byhr (hour d2))
                  \<and> (empty1 bymin \<or> js_includes bymin (minute d2))
                  \<and> (empty1 bysec \<or> js_includes bysec (second d2))
               then Some d2
               else addSeconds_loop (fuel - 1) seconds byhr bymin bysec d2)"

declare addSeconds_loop.simps [simp del]

definition addSeconds ::
  "nat \<Rightarrow> int \<Rightarrow> bool \<Rightarrow> int list option \<Rightarrow> int list option \<Rightarrow> int list option \<Rightarrow> DateTime
     \<Rightarrow> DateTime option" where
  "addSeconds fuel seconds filtered byhr bymin bysec d =
     addSeconds_loop fuel seconds byhr bymin bysec
       (if filtered
        then d\<lparr>second := second d
                 + ((86399 - (hour d * 3600 + minute d * 60 + second d)) div seconds) * seconds\<rparr>
        else d)"

text \<open>\<open>DateTime.prototype.add\<close>.\<close>

definition DateTime_add :: "nat \<Rightarrow> ParsedOptions \<Rightarrow> bool \<Rightarrow> DateTime \<Rightarrow> DateTime option" where
  "DateTime_add fuel options filtered d =
     (let f = freq options; n = interval options
      in if f = YEARLY then Some (addYears n d)
         else if f = MONTHLY then Some (addMonths n d)
         else if f = WEEKLY then Some (addWeekly n (wkst options) d)
         else if f = DAILY then Some (addDaily n d)
         else if f = HOURLY then addHours fuel n filtered (byhour options) d
         else if f = MINUTELY then addMinutes fuel n filtered (byhour options) (byminute options) d
         else if f = SECONDLY
           then addSeconds fuel n filtered (byhour options) (byminute options) (bysecond options) d
         else Some d)"

section \<open>The occurrence iterator\<close>

definition includes_opt :: "int list option \<Rightarrow> int option \<Rightarrow> bool" where
  "includes_opt arr v = (case v of None \<Rightarrow> False | Some x \<Rightarrow> js_includes arr x)"

definition truthy :: "int option \<Rightarrow> bool" where
  "truthy v = (case v of None \<Rightarrow> False | Some x \<Rightarrow> x \<noteq> 0)"

definition isFiltered :: "Iterinfo \<Rightarrow> int \<Rightarrow> ParsedOptions \<Rightarrow> bool" where
  "isFiltered ii currentDay options =
     (let yi = yearinfo ii
      in (notEmpty (bymonth options)
            \<and> \<not> includes_opt (bymonth options) (js_nth (mmask yi) currentDay))
         \<or> (notEmpty (byweekno options)
            \<and> \<not> truthy (case wnomask yi of None \<Rightarrow> None | Some m \<Rightarrow> js_nth m currentDay))
         \<or> (notEmpty (byweekday options)
            \<and> \<not> includes_opt (byweekday options) (js_nth (wdaymask yi) currentDay))
         \<or> (ii_nwdaymask ii \<noteq> [] \<and> \<not> truthy (js_nth (ii_nwdaymask ii) currentDay))
         \<or> (byeaster options \<noteq> None \<and> \<not> js_includes (eastermask ii) currentDay)
         \<or> ((notEmpty (bymonthday options) \<or> notEmpty (bynmonthday options))
            \<and> \<not> includes_opt (bymonthday options) (js_nth (mdaymask yi) currentDay)
            \<and> \<not> includes_opt (bynmonthday options) (js_nth (nmdaymask yi) currentDay))
         \<or> (notEmpty (byyearday options)
            \<and> ((currentDay < yearlen yi
                  \<and> \<not> js_includes (byyearday options) (currentDay + 1)
                  \<and> \<not> js_includes (byyearday options) (- yearlen yi + currentDay))
                \<or> (currentDay \<ge> yearlen yi
                  \<and> \<not> js_includes (byyearday options) (currentDay + 1 - yearlen yi)
                  \<and> \<not> js_includes (byyearday options)
                        (- nextyearlen yi + currentDay - yearlen yi)))))"

text \<open>
  \<open>removeFilteredDays\<close>. Every day set holds \<open>j\<close> at each \<open>j\<close> from \<open>start\<close> to
  \<open>end\<close> when the loop reaches it (\<open>getdayset_filled\<close> below), so the entry read
  is never \<open>null\<close>; the model leaves the state alone there.
\<close>

definition filter_day :: "Iterinfo \<Rightarrow> ParsedOptions \<Rightarrow> dayset \<times> bool \<Rightarrow> int \<Rightarrow> dayset \<times> bool" where
  "filter_day ii options st dayCounter =
     (case fst st dayCounter of
        None \<Rightarrow> st
      | Some currentDay \<Rightarrow>
          (let filtered = isFiltered ii currentDay options
           in (if filtered then (fst st)(currentDay := None) else fst st, filtered)))"

definition removeFilteredDays ::
  "dayset \<Rightarrow> int \<Rightarrow> int \<Rightarrow> Iterinfo \<Rightarrow> ParsedOptions \<Rightarrow> dayset \<times> bool" where
  "removeFilteredDays ds start end ii options =
     foldl (filter_day ii options) (ds, False) (js_range start end)"

text \<open>The days of the set that are left, in order.\<close>

definition present_days :: "dayset \<Rightarrow> int \<Rightarrow> int \<Rightarrow> int list" where
  "present_days ds start end = List.map_filter ds (js_range start end)"

text \<open>
  \<open>buildPoslist\<close>. A position outside the days left gives an \<open>Invalid Date\<close>
  (\<open>None\<close>), which the caller skips. The test \<open>includes(poslist, res)\<close> compares
  objects and never holds for the new \<open>res\<close>, so every date is pushed. With an empty
  time set the date is built from the host's local time, and sorting a list that mixes
  valid and invalid dates is left to the engine: no list is returned in these cases.
\<close>

definition poslist_entry ::
  "Time list \<Rightarrow> int list \<Rightarrow> Iterinfo \<Rightarrow> int \<Rightarrow> int option" where
  "poslist_entry timeset tmp ii pos =
     (let len = int (length timeset);
          daypos = (if pos < 0 then pos div len else (pos - 1) div len);
          timepos = (if pos < 0 then pymod pos len else pymod (pos - 1) len);
          i = (if daypos < 0 then js_nth (js_slice tmp daypos (int (length tmp))) 0
               else js_nth tmp daypos)
      in case i of
           None \<Rightarrow> None
         | Some i' \<Rightarrow>
             Some (combine (fromOrdinal (yearordinal (yearinfo ii) + i')) (timeset ! nat timepos)))"

definition buildPoslist ::
  "int list \<Rightarrow> Time list \<Rightarrow> int \<Rightarrow> int \<Rightarrow> Iterinfo \<Rightarrow> dayset \<Rightarrow> int list option" where
  "buildPoslist setpos timeset start end ii ds =
     (if timeset = [] then None
      else
        let poslist = map (poslist_entry timeset (present_days ds start end) ii) setpos
        in if \<forall>r \<in> set poslist. r = None then Some []
           else if \<forall>r \<in> set poslist. r \<noteq> None then Some (sort_key (\<lambda>d. d) (map the poslist))
           else None)"

definition isUTC :: "string option \<Rightarrow> bool" where
  "isUTC tz =
     (case tz of
        None \<Rightarrow> True
      | Some s \<Rightarrow> s = [] \<or> s \<in> {''UTC'', ''UTc'', ''UtC'', ''Utc'', ''uTC'', ''uTc'', ''utC'', ''utc''})"

definition rezonedDate :: "host \<Rightarrow> int \<Rightarrow> string option \<Rightarrow> int" where
  "rezonedDate h date tz =
     (if isUTC tz then date else (case tz of None \<Rightarrow> date | Some z \<Rightarrow> setZone h z date))"

definition rezoneIfNeeded :: "host \<Rightarrow> int \<Rightarrow> ParsedOptions \<Rightarrow> int" where
  "rezoneIfNeeded h date options = rezonedDate h date (tzid options)"

text \<open>The dates of one period in the order in which \<open>iter\<close> visits them.\<close>

definition period_dates ::
  "ParsedOptions \<Rightarrow> Iterinfo \<Rightarrow> Time list \<Rightarrow> dayset \<Rightarrow> int \<Rightarrow> int \<Rightarrow> int list option" where
  "period_dates options ii timeset ds start end =
     (if notEmpty (bysetpos options)
      then buildPoslist (case bysetpos options of None \<Rightarrow> [] | Some ps \<Rightarrow> ps) timeset start end ii ds
      else Some (concat (map (\<lambda>currentDay.
                   map (combine (fromOrdinal (yearordinal (yearinfo ii) + currentDay))) timeset)
                 (present_days ds start end))))"

text \<open>
  The sink of the iterator is the object whose \<open>accept\<close> method takes each date: a
  state and a function from the state and a date to the answer (go on or stop) and the
  new state. A sink may fail to answer (\<open>None\<close>). The inner loops of \<open>iter\<close> hand the
  dates of a period to the sink one by one; they end the iteration (\<open>Stopped\<close>) or go
  on to the next period with the count that is left (\<open>Running\<close>).
\<close>

datatype 's emitted = Stopped 's | Running 's "int option"

fun emit_dates ::
  "('s \<Rightarrow> int \<Rightarrow> (bool \<times> 's) option) \<Rightarrow> host \<Rightarrow> ParsedOptions \<Rightarrow> int list \<Rightarrow> 's \<Rightarrow> int option
     \<Rightarrow> 's emitted option" where
  "emit_dates acc h options [] s cnt = Some (Running s cnt)"
| "emit_dates acc h options (res # rest) s cnt =
     (if (case until options of None \<Rightarrow> False | Some u \<Rightarrow> res > u) then Some (Stopped s)
      else if res \<ge> dtstart options
      then (case acc s (rezoneIfNeeded h res options) of
              None \<Rightarrow> None
            | Some (ok, s') \<Rightarrow>
                if \<not> ok then Some (Stopped s')
                else (case cnt of
                        None \<Rightarrow> emit_dates acc h options rest s' cnt
                      | Some n \<Rightarrow>
                          if n = 0 then emit_dates acc h options rest s' cnt
                          else if n - 1 = 0 then Some (Stopped s')
                          else emit_dates acc h options rest s' (Some (n - 1))))
      else emit_dates acc h options rest s cnt)"

text \<open>The \<open>while (true)\<close> loop of \<open>iter\<close>, one unit of fuel for a period.\<close>

fun iter_loop ::
  "('s \<Rightarrow> int \<Rightarrow> (bool \<times> 's) option) \<Rightarrow> host \<Rightarrow> ParsedOptions \<Rightarrow> nat \<Rightarrow> DateTime \<Rightarrow> Iterinfo
     \<Rightarrow> Time list \<Rightarrow> 's \<Rightarrow> int option \<Rightarrow> 's option" where
  "iter_loop acc h options fuel counterDate ii timeset s cnt =
     (if fuel = 0 then None
      else
        let ds0 = getdayset h options ii (freq options)
                    (year counterDate) (month counterDate) (day counterDate);
            start = fst (snd ds0);
            end = snd (snd ds0);
            rf = removeFilteredDays (fst ds0) start end ii options;
            filtered = snd rf
        in case period_dates options ii timeset (fst rf) start end of
             None \<Rightarrow> None
           | Some dates \<Rightarrow>
               (case emit_dates acc h options dates s cnt of
                  None \<Rightarrow> None
                | Some (Stopped s') \<Rightarrow> Some s'
                | Some (Running s' cnt') \<Rightarrow>
                    if interval options = 0 then Some s'
                    else
                      (case DateTime_add fuel options filtered counterDate of
                         None \<Rightarrow> None
                       | Some cd \<Rightarrow>
                           if year cd > MAXYEAR then Some s'
                           else
                             (case (if \<not> freqIsDailyOrGreater (freq options)
                                    then gettimeset options (freq options)
                                           (hour cd) (minute cd) (second cd) 0
                                    else Some timeset) of
                                None \<Rightarrow> None
                              | Some timeset' \<Rightarrow>
                                  iter_loop acc h options (fuel - 1) cd
                                    (rebuild h options (year cd) (month cd) ii) timeset' s' cnt'))))"

declare iter_loop.simps [simp del]

definition iter_run ::
  "('s \<Rightarrow> int \<Rightarrow> (bool \<times> 's) option) \<Rightarrow> host \<Rightarrow> nat \<Rightarrow> 's \<Rightarrow> ParsedOptions \<Rightarrow> 's option" where
  "iter_run acc h fuel s options =
     (if count options = Some 0 \<or> interval options = 0 then Some s
      else
        let counterDate = fromDate (dtstart options);
            ii = rebuild h options (year counterDate) (month counterDate) new_Iterinfo
        in case makeTimeset options counterDate of
             None \<Rightarrow> None
           | Some timeset \<Rightarrow> iter_loop acc h options fuel counterDate ii timeset s (count options))"

section \<open>IterResult\<close>

datatype Query = QAll | QBetween int int bool | QBefore int bool | QAfter int bool

datatype Method = All | Between | Before | After

fun method_of :: "Query \<Rightarrow> Method" where
  "method_of QAll = All"
| "method_of (QBetween a b inc) = Between"
| "method_of (QBefore dt inc) = Before"
| "method_of (QAfter dt inc) = After"

datatype QueryValue = DateList "int list" | DateOrNull "int option"

text \<open>An \<open>IterResult\<close>; with a callback in \<open>iterator\<close> it is a \<open>CallbackIterResult\<close>.
  \<open>QBetween a b inc\<close> holds the arguments \<open>after\<close>, \<open>before\<close> and \<open>inc\<close>.\<close>

record IterResult =
  query :: Query
  minDate :: "int option"
  maxDate :: "int option"
  result :: "int list"
  total :: nat
  iterator :: "(int \<Rightarrow> nat \<Rightarrow> bool) option"

definition new_IterResult :: "Query \<Rightarrow> IterResult" where
  "new_IterResult q =
     \<lparr> query = q,
       minDate = (case q of
                    QBetween a b inc \<Rightarrow> Some (if inc then a else a + 1)
                  | QAfter dt inc \<Rightarrow> Some (if inc then dt else dt + 1)
                  | _ \<Rightarrow> None),
       maxDate = (case q of
                    QBetween a b inc \<Rightarrow> Some (if inc then b else b - 1)
                  | QBefore dt inc \<Rightarrow> Some (if inc then dt else dt - 1)
                  | _ \<Rightarrow> None),
       result = [], total = 0, iterator = None \<rparr>"

definition new_CallbackIterResult :: "Query \<Rightarrow> (int \<Rightarrow> nat \<Rightarrow> bool) \<Rightarrow> IterResult" where
  "new_CallbackIterResult q f = (new_IterResult q)\<lparr>iterator := Some f\<rparr>"

definition add :: "IterResult \<Rightarrow> int \<Rightarrow> bool \<times> IterResult" where
  "add ir date =
     (case iterator ir of
        None \<Rightarrow> (True, ir\<lparr>result := result ir @ [date]\<rparr>)
      | Some f \<Rightarrow>
          if f date (length (result ir)) then (True, ir\<lparr>result := result ir @ [date]\<rparr>)
          else (False, ir))"

definition accept :: "IterResult \<Rightarrow> int \<Rightarrow> bool \<times> IterResult" where
  "accept ir0 date =
     (let ir = ir0\<lparr>total := total ir0 + 1\<rparr>;
          tooEarly = (case minDate ir of None \<Rightarrow> False | Some m \<Rightarrow> date < m);
          tooLate = (case maxDate ir of None \<Rightarrow> False | Some m \<Rightarrow> date > m)
      in case method_of (query ir) of
           Between \<Rightarrow> if tooEarly then (True, ir) else if tooLate then (False, ir) else add ir date
         | Before \<Rightarrow> if tooLate then (False, ir) else add ir date
         | After \<Rightarrow> if tooEarly then (True, ir) else (False, snd (add ir date))
         | All \<Rightarrow> add ir date)"

definition getValue :: "IterResult \<Rightarrow> QueryValue" where
  "getValue ir =
     (case method_of (query ir) of
        All \<Rightarrow> DateList (result ir)
      | Between \<Rightarrow> DateList (result ir)
      | _ \<Rightarrow> DateOrNull (if result ir = [] then None else Some (last (result ir))))"

text \<open>\<open>iter\<close>: the iterator run on an \<open>IterResult\<close>, returning \<open>emitResult\<close>.\<close>

definition iter :: "host \<Rightarrow> nat \<Rightarrow> IterResult \<Rightarrow> ParsedOptions \<Rightarrow> QueryValue option" where
  "iter h fuel iterResult options =
     map_option getValue (iter_run (\<lambda>s date. Some (accept s date)) h fuel iterResult options)"

section \<open>Cache and the queries of RRule\<close>

text \<open>
  The cache of a rule: \<open>all\<close> is \<open>false\<close> (\<open>None\<close>) or the list of all occurrences;
  \<open>before\<close>, \<open>after\<close> and \<open>between\<close> hold the arguments of earlier calls, each
  with its \<open>_value\<close>.
\<close>

record Cache =
  all :: "int list option"
  before :: "(Query \<times> QueryValue) list"
  after :: "(Query \<times> QueryValue) list"
  between :: "(Query \<times> QueryValue) list"

definition new_Cache :: Cache where
  "new_Cache = \<lparr> all = None, before = [], after = [], between = [] \<rparr>"

text \<open>\<open>String(date)\<close> prints a date to the second, in the zone of the host: two dates
  print alike exactly when they lie in the same second. The key stands for the string.\<close>

definition String_Date :: "int \<Rightarrow> int" where
  "String_Date t = t div 1000"

text \<open>\<open>findCacheDiff\<close>: some argument prints differently.\<close>

fun findCacheDiff :: "Query \<Rightarrow> Query \<Rightarrow> bool" where
  "findCacheDiff (QBefore dt inc) (QBefore dt' inc') =
     (String_Date dt \<noteq> String_Date dt' \<or> inc \<noteq> inc')"
| "findCacheDiff (QAfter dt inc) (QAfter dt' inc') =
     (String_Date dt \<noteq> String_Date dt' \<or> inc \<noteq> inc')"
| "findCacheDiff (QBetween a b inc) (QBetween a' b' inc') =
     (String_Date b \<noteq> String_Date b' \<or> String_Date a \<noteq> String_Date a' \<or> inc \<noteq> inc')"
| "findCacheDiff q q' = True"

definition cached_list :: "Cache \<Rightarrow> Query \<Rightarrow> (Query \<times> QueryValue) list" where
  "cached_list c q =
     (case method_of q of
        All \<Rightarrow> []
      | Before \<Rightarrow> before c
      | After \<Rightarrow> after c
      | Between \<Rightarrow> between c)"

definition cacheAdd :: "Query \<Rightarrow> QueryValue \<Rightarrow> Cache \<Rightarrow> Cache" where
  "cacheAdd q v c =
     (case method_of q of
        All \<Rightarrow> c\<lparr>all := (case v of DateList ds \<Rightarrow> Some ds | DateOrNull d \<Rightarrow> None)\<rparr>
      | Before \<Rightarrow> c\<lparr>before := before c @ [(q, v)]\<rparr>
      | After \<Rightarrow> c\<lparr>after := after c @ [(q, v)]\<rparr>
      | Between \<Rightarrow> c\<lparr>between := between c @ [(q, v)]\<rparr>)"

text \<open>The loop of \<open>_cacheGet\<close> over the cached occurrences: every date goes to
  \<open>accept\<close> until it answers \<open>false\<close>.\<close>

fun feed :: "IterResult \<Rightarrow> int list \<Rightarrow> IterResult" where
  "feed ir [] = ir"
| "feed ir (d # ds) = (if fst (accept ir d) then feed (snd (accept ir d)) ds else snd (accept ir d))"

definition is_falsy :: "QueryValue option \<Rightarrow> bool" where
  "is_falsy v = (v = None \<or> v = Some (DateOrNull None))"

text \<open>\<open>_cacheGet\<close>: \<open>None\<close> is the answer \<open>false\<close>, not in the cache.\<close>

definition cacheGet :: "Query \<Rightarrow> Cache \<Rightarrow> QueryValue option \<times> Cache" where
  "cacheGet q c =
     (let cached =
            (if method_of q = All then map_option DateList (all c)
             else (case filter (\<lambda>item. \<not> findCacheDiff q (fst item)) (cached_list c q) of
                     [] \<Rightarrow> None
                   | item # _ \<Rightarrow> Some (snd item)))
      in case all c of
           None \<Rightarrow> (cached, c)
         | Some occurrences \<Rightarrow>
             if is_falsy cached
             then (let v = getValue (feed (new_IterResult q) occurrences)
                   in (Some v, cacheAdd q v c))
             else (cached, c))"

record RRule =
  r_options :: ParsedOptions
  r_cache :: "Cache option"

definition new_RRule :: "host \<Rightarrow> Options \<Rightarrow> bool \<Rightarrow> rrule_error + RRule" where
  "new_RRule h opts noCache =
     (case parseOptions h opts of
        Inl e \<Rightarrow> Inl e
      | Inr p \<Rightarrow> Inr \<lparr> r_options = p, r_cache = (if noCache then None else Some new_Cache) \<rparr>)"

definition RRule_cacheGet :: "Query \<Rightarrow> RRule \<Rightarrow> QueryValue option \<times> RRule" where
  "RRule_cacheGet q r =
     (case r_cache r of
        None \<Rightarrow> (None, r)
      | Some c \<Rightarrow> (fst (cacheGet q c), r\<lparr>r_cache := Some (snd (cacheGet q c))\<rparr>))"

definition RRule_cacheAdd :: "Query \<Rightarrow> QueryValue \<Rightarrow> RRule \<Rightarrow> RRule" where
  "RRule_cacheAdd q v r =
     (case r_cache r of
        None \<Rightarrow> r
      | Some c \<Rightarrow> r\<lparr>r_cache := Some (cacheAdd q v c)\<rparr>)"

text \<open>
  The part the four queries share after their arguments are checked: with a callback
  the iterator runs uncached; else the cache is asked first. The result is the value
  and the rule with its cache as the call leaves it; \<open>None\<close> when the iterator does not
  return within the fuel.
\<close>

definition cached_query ::
  "host \<Rightarrow> nat \<Rightarrow> Query \<Rightarrow> (int \<Rightarrow> nat \<Rightarrow> bool) option \<Rightarrow> RRule \<Rightarrow> (QueryValue \<times> RRule) option" where
  "cached_query h fuel q callback r =
     (case callback of
        Some f \<Rightarrow>
          map_option (\<lambda>v. (v, r)) (iter h fuel (new_CallbackIterResult q f) (r_options r))
      | None \<Rightarrow>
          (case RRule_cacheGet q r of
             (Some v, r') \<Rightarrow> Some (v, r')
           | (None, r') \<Rightarrow>
               map_option (\<lambda>v. (v, RRule_cacheAdd q v r'))
                 (iter h fuel (new_IterResult q) (r_options r'))))"

definition RRule_all ::
  "host \<Rightarrow> nat \<Rightarrow> (int \<Rightarrow> nat \<Rightarrow> bool) option \<Rightarrow> RRule \<Rightarrow> (QueryValue \<times> RRule) option" where
  "RRule_all h fuel callback r = cached_query h fuel QAll callback r"

text \<open>The queries with date arguments throw on an \<open>Invalid Date\<close>.\<close>

definition RRule_between ::
  "host \<Rightarrow> nat \<Rightarrow> JSDate \<Rightarrow> JSDate \<Rightarrow> bool \<Rightarrow> (int \<Rightarrow> nat \<Rightarrow> bool) option \<Rightarrow> RRule
     \<Rightarrow> (rrule_error + QueryValue \<times> RRule) option" where
  "RRule_between h fuel aft bef inc callback r =
     (case (aft, bef) of
        (ValidDate a, ValidDate b) \<Rightarrow>
          map_option Inr (cached_query h fuel (QBetween a b inc) callback r)
      | _ \<Rightarrow> Some (Inl Invalid_date_passed))"

definition RRule_before ::
  "host \<Rightarrow> nat \<Rightarrow> JSDate \<Rightarrow> bool \<Rightarrow> RRule \<Rightarrow> (rrule_error + QueryValue \<times> RRule) option" where
  "RRule_before h fuel dt inc r =
     (case dt of
        ValidDate t \<Rightarrow> map_option Inr (cached_query h fuel (QBefore t inc) None r)
      | InvalidDate \<Rightarrow> Some (Inl Invalid_date_passed))"

definition RRule_after ::
  "host \<Rightarrow> nat \<Rightarrow> JSDate \<Rightarrow> bool \<Rightarrow> RRule \<Rightarrow> (rrule_error + QueryValue \<times> RRule) option" where
  "RRule_after h fuel dt inc r =
     (case dt of
        ValidDate t \<Rightarrow> map_option Inr (cached_query h fuel (QAfter t inc) None r)
      | InvalidDate \<Rightarrow> Some (Inl Invalid_date_passed))"

section \<open>RepeatAdapter (src/repeat.ts)\<close>

text \<open>\<open>next = (count) => this.rrule.all((_, len) => len < count)\<close>.\<close>

definition RepeatAdapter_next :: "host \<Rightarrow> nat \<Rightarrow> int \<Rightarrow> RRule \<Rightarrow> (QueryValue \<times> RRule) option" where
  "RepeatAdapter_next h fuel n r = RRule_all h fuel (Some (\<lambda>_ len. int len < n)) r"

section \<open>The set composer (iterSet)\<close>

















section \<open>Notions used in the statements\<close>

subsection \<open>Option sets\<close>

text \<open>No day-selecting rule is given: the five keys are absent.\<close>

definition day_rule_absent :: "Options \<Rightarrow> bool" where
  "day_rule_absent options =
     (o_byweekno options = None \<and> o_byyearday options = None \<and> o_bymonthday options = None
      \<and> o_byweekday options = None \<and> o_byeaster options = None)"

text \<open>A weekday item without its ordinal.\<close>

fun strip_ordinal :: "ByWeekday \<Rightarrow> ByWeekday" where
  "strip_ordinal (WdNum v) = WdNum v"
| "strip_ordinal (WdStr s) = WdStr s"
| "strip_ordinal (WdObj w) = WdObj (Weekday (weekday w) None)"

definition strip_ordinals :: "ByWeekday one_or_many \<Rightarrow> ByWeekday one_or_many" where
  "strip_ordinals x = (case x of One w \<Rightarrow> One (strip_ordinal w) | Many ws \<Rightarrow> Many (map strip_ordinal ws))"

text \<open>Option sets of examples: a frequency and the start 2024-03-15 (a Friday) at
  00:00 UTC; the same, yearly, with \<open>bymonth: 0\<close>; and weekly with the second Tuesday.\<close>

definition from_start :: "int \<Rightarrow> Options" where
  "from_start f = no_options\<lparr>o_freq := Some f, o_dtstart := Some (ValidDate 1710460800000)\<rparr>"

definition yearly_month_zero :: Options where
  "yearly_month_zero = (from_start YEARLY)\<lparr>o_bymonth := Some (One 0)\<rparr>"

definition weekly_second_tuesday :: Options where
  "weekly_second_tuesday =
     (from_start WEEKLY)\<lparr>o_byweekday := Some (Many [WdObj (Weekday 1 (Some 2))])\<rparr>"

subsection \<open>Sinks and periods\<close>

text \<open>A plain sink collects every date (the \<open>IterResult\<close> of \<open>all()\<close> without a
  callback); \<open>taken ir ds\<close> holds when \<open>ir\<close> accepts every date of \<open>ds\<close> and asks for
  more after each.\<close>

definition plain_all :: "IterResult \<Rightarrow> bool" where
  "plain_all ir = (method_of (query ir) = All \<and> iterator ir = None)"

abbreviation (input) acc_ir :: "IterResult \<Rightarrow> int \<Rightarrow> (bool \<times> IterResult) option" where
  "acc_ir \<equiv> (\<lambda>s date. Some (accept s date))"

fun taken :: "IterResult \<Rightarrow> int list \<Rightarrow> bool" where
  "taken ir [] = True"
| "taken ir (d # ds) = (fst (accept ir d) \<and> taken (snd (accept ir d)) ds)"

text \<open>The body of the loop of \<open>iter\<close> in three parts: the day set after filtering,
  the dates of the period, and the next period (or the end of the iteration).\<close>

datatype next_period = Finished | Failed | Next DateTime Iterinfo "Time list"

definition loop_filtered :: "host \<Rightarrow> ParsedOptions \<Rightarrow> DateTime \<Rightarrow> Iterinfo \<Rightarrow> dayset \<times> bool" where
  "loop_filtered h opts cd ii =
     (let ds0 = getdayset h opts ii (freq opts) (year cd) (month cd) (day cd)
      in removeFilteredDays (fst ds0) (fst (snd ds0)) (snd (snd ds0)) ii opts)"

definition loop_dates :: "host \<Rightarrow> ParsedOptions \<Rightarrow> DateTime \<Rightarrow> Iterinfo \<Rightarrow> Time list \<Rightarrow> int list option" where
  "loop_dates h opts cd ii ts =
     (let ds0 = getdayset h opts ii (freq opts) (year cd) (month cd) (day cd)
      in period_dates opts ii ts (fst (loop_filtered h opts cd ii)) (fst (snd ds0)) (snd (snd ds0)))"

definition loop_next ::
  "host \<Rightarrow> ParsedOptions \<Rightarrow> nat \<Rightarrow> DateTime \<Rightarrow> Iterinfo \<Rightarrow> Time list \<Rightarrow> next_period" where
  "loop_next h opts fuel cd ii ts =
     (if interval opts = 0 then Finished
      else
        (case DateTime_add fuel opts (snd (loop_filtered h opts cd ii)) cd of
           None \<Rightarrow> Failed
         | Some cd' \<Rightarrow>
             if year cd' > MAXYEAR then Finished
             else
               (case (if \<not> freqIsDailyOrGreater (freq opts)
                      then gettimeset opts (freq opts) (hour cd') (minute cd') (second cd') 0
                      else Some ts) of
                  None \<Rightarrow> Failed
                | Some ts' \<Rightarrow> Next cd' (rebuild h opts (year cd') (month cd') ii) ts')))"

subsection \<open>Caches that hold empty answers\<close>

text \<open>The empty answer of a query, a cache that holds nothing but empty answers, and a
  rule with such a cache or none. The rule of the example repeats every day from
  2024-03-15 with \<open>interval\<close> 0 and has a fresh cache.\<close>

definition empty_value :: "Query \<Rightarrow> QueryValue" where
  "empty_value q =
     (case method_of q of
        All \<Rightarrow> DateList []
      | Between \<Rightarrow> DateList []
      | _ \<Rightarrow> DateOrNull None)"

definition quiet_cache :: "Cache \<Rightarrow> bool" where
  "quiet_cache c =
     ((all c = None \<or> all c = Some [])
      \<and> (\<forall>item \<in> set (before c @ after c @ between c). snd item = empty_value (fst item)))"

definition quiet :: "RRule \<Rightarrow> bool" where
  "quiet r = (case r_cache r of None \<Rightarrow> True | Some c \<Rightarrow> quiet_cache c)"

definition every_day_no_interval :: RRule where
  "every_day_no_interval =
     \<lparr> r_options = (resolve utc_host (from_start DAILY))\<lparr>interval := 0\<rparr>,
       r_cache = Some new_Cache \<rparr>"

subsection \<open>Periods\<close>

text \<open>The day set of a period after \<open>removeFilteredDays\<close> has worked through the days
  below \<open>k\<close>; the bounds of the day set of a period; and the dates of a period without
  \<open>bysetpos\<close>, day by day and time by time.\<close>

definition kept_days :: "Iterinfo \<Rightarrow> ParsedOptions \<Rightarrow> int \<Rightarrow> int \<Rightarrow> int \<Rightarrow> dayset" where
  "kept_days ii options a k b =
     (\<lambda>i. if a \<le> i \<and> i < k \<and> isFiltered ii i options then None else fill_days a b i)"

definition dayset_bounds :: "host \<Rightarrow> ParsedOptions \<Rightarrow> Iterinfo \<Rightarrow> DateTime \<Rightarrow> int \<times> int" where
  "dayset_bounds h options ii cd =
     snd (getdayset h options ii (freq options) (year cd) (month cd) (day cd))"

definition plain_dates :: "ParsedOptions \<Rightarrow> Iterinfo \<Rightarrow> Time list \<Rightarrow> int \<Rightarrow> int \<Rightarrow> int list" where
  "plain_dates options ii timeset a b =
     concat (map (\<lambda>currentDay.
                    map (combine (fromOrdinal (yearordinal (yearinfo ii) + currentDay))) timeset)
              (filter (\<lambda>i. \<not> isFiltered ii i options) [a..b - 1]))"

text \<open>Options without any rule that selects days or positions.\<close>

definition unfiltered :: "ParsedOptions \<Rightarrow> bool" where
  "unfiltered options =
     (\<not> notEmpty (bysetpos options) \<and> \<not> notEmpty (bymonth options)
      \<and> \<not> notEmpty (byweekno options) \<and> \<not> notEmpty (byweekday options)
      \<and> \<not> notEmpty (bynweekday options) \<and> byeaster options = None
      \<and> \<not> notEmpty (bymonthday options) \<and> \<not> notEmpty (bynmonthday options)
      \<and> \<not> notEmpty (byyearday options))"

text \<open>A time on the hour and a date at midnight.\<close>

definition at_hour :: "int \<Rightarrow> Time" where
  "at_hour hr = \<lparr>hour = hr, minute = 0, second = 0, millisecond = 0\<rparr>"

definition on_day :: "int \<Rightarrow> int \<Rightarrow> int \<Rightarrow> DateTime" where
  "on_day y m d = \<lparr>hour = 0, minute = 0, second = 0, millisecond = 0, year = y, month = m, day = d\<rparr>"

subsection \<open>Example rules\<close>

text \<open>Every day from 2024-01-01 at 12, 6 and 18 hours UTC, in this order, until
  2024-01-01 12:00 UTC: the options as given and as \<open>parseOptions\<close> resolves them, and
  the rule with a fresh cache.\<close>

definition unsorted_hours_options :: Options where
  "unsorted_hours_options =
     no_options\<lparr>o_freq := Some DAILY, o_dtstart := Some (ValidDate 1704067200000),
                o_until := Some (ValidDate 1704110400000), o_byhour := Some (Many [12, 6, 18])\<rparr>"

definition unsorted_hours :: ParsedOptions where
  "unsorted_hours =
     \<lparr>freq = 3, dtstart = 1704067200000, interval = 1, wkst = 0, count = None,
      until = Some 1704110400000, tzid = None, bysetpos = None, bymonth = None,
      bymonthday = Some [], bynmonthday = Some [], byyearday = None, byweekno = None,
      byweekday = None, bynweekday = None, byhour = Some [12, 6, 18], byminute = Some [0],
      bysecond = Some [0], byeaster = None\<rparr>"

definition unsorted_hours_rule :: RRule where
  "unsorted_hours_rule = \<lparr> r_options = unsorted_hours, r_cache = Some new_Cache \<rparr>"

text \<open>Every day from 9999-12-31 00:00 UTC, twice.\<close>

definition last_day_options :: Options where
  "last_day_options =
     no_options\<lparr>o_freq := Some DAILY, o_dtstart := Some (ValidDate 253402214400000),
                o_count := Some 2\<rparr>"

definition last_day :: ParsedOptions where
  "last_day =
     \<lparr>freq = 3, dtstart = 253402214400000, interval = 1, wkst = 0, count = Some 2,
      until = None, tzid = None, bysetpos = None, bymonth = None,
      bymonthday = Some [], bynmonthday = Some [], byyearday = None, byweekno = None,
      byweekday = None, bynweekday = None, byhour = Some [0], byminute = Some [0],
      bysecond = Some [0], byeaster = None\<rparr>"




subsection \<open>Recurrence sets\<close>








section \<open>Properties of the task list configuration parser\<close>

lemma parseLine_total: "\<exists>c. parseLine state line = Inr c"
proof (cases "length (map js_trim (js_split (code_unit CHR '':'') line)) = 2")
  case True
  then have "js_index (map js_trim (js_split (code_unit CHR '':'') line)) 1 \<noteq> None"
    by (simp add: js_index_def)
  then obtain v where v: "js_index (map js_trim (js_split (code_unit CHR '':'') line)) 1 = Some v"
    by blast
  show ?thesis
    unfolding parseLine_def Let_def v parseTags_def
    by (simp split: sum.splits)
next
  case False
  then show ?thesis
    unfolding parseLine_def Let_def by simp
qed

lemma parseLines_total: "\<exists>c. parseLines state ls = Inr c"
proof (induction ls arbitrary: state)
  case Nil
  show ?case by simp
next
  case (Cons l ls)
  obtain s' where "parseLine state l = Inr s'"
    using parseLine_total by blast
  with Cons.IH [of s'] show ?case by simp
qed

lemma parseLines_append:
  "parseLines state (xs @ ys) =
     (case parseLines state xs of Inl e \<Rightarrow> Inl e | Inr state' \<Rightarrow> parseLines state' ys)"
  by (induction xs arbitrary: state) (simp_all split: sum.splits)

lemma two_parts:
  assumes "length (js_split (code_unit CHR '':'') line) = 2"
  shows "map js_trim (js_split (code_unit CHR '':'') line) = [line_key line, line_value line]"
proof -
  obtain a b where ab: "js_split (code_unit CHR '':'') line = [a, b]"
    using assms
    by (cases "js_split (code_unit CHR '':'') line"; simp) (metis length_0_conv length_Suc_conv)
  show ?thesis by (simp add: ab line_key_def line_value_def)
qed

lemma parseLine_malformed:
  "length (js_split (code_unit CHR '':'') line) \<noteq> 2 \<Longrightarrow> parseLine state line = Inr state"
  by (simp add: parseLine_def)

lemma lit_keys:
  "lit ''sort'' \<noteq> lit ''overdue''" "lit ''sort'' \<noteq> lit ''due''"
  "lit ''sort'' \<noteq> lit ''no-due''" "lit ''sort'' \<noteq> lit ''completed''"
  "lit ''group'' \<noteq> lit ''overdue''" "lit ''group'' \<noteq> lit ''due''"
  "lit ''group'' \<noteq> lit ''no-due''" "lit ''group'' \<noteq> lit ''completed''"
  "lit ''group'' \<noteq> lit ''sort''"
  by (simp_all add: lit_def code_unit_def)

lemma parseLine_unknown_key:
  assumes "length (js_split (code_unit CHR '':'') line) = 2" and "line_key line \<notin> set config_keys"
  shows "parseLine state line = Inr state"
proof -
  have ne: "line \<noteq> []" using assms(1) by auto
  show ?thesis
    using assms(2) ne
    unfolding parseLine_def Let_def two_parts [OF assms(1)] config_keys_def js_index_def
    by auto
qed

lemma parseLine_bad_sort:
  assumes "bad_sort_line line"
  shows "parseLine state line = Inr (state\<lparr>sort := None\<rparr>)"
proof -
  have two: "length (js_split (code_unit CHR '':'') line) = 2"
    and k: "line_key line = lit ''sort''"
    and v: "line_value line \<noteq> lit ''due''" "line_value line \<noteq> lit ''score''"
    using assms by (simp_all add: bad_sort_line_def)
  have ne: "line \<noteq> []" using two by auto
  show ?thesis
    using v ne
    unfolding parseLine_def Let_def two_parts [OF two] js_index_def k
    by (simp add: lit_keys)
qed

lemma parseLine_bad_group:
  assumes "bad_group_line line"
  shows "parseLine state line = Inr (state\<lparr>group := None\<rparr>)"
proof -
  have two: "length (js_split (code_unit CHR '':'') line) = 2"
    and k: "line_key line = lit ''group''"
    and v: "line_value line \<noteq> lit ''due''" "line_value line \<noteq> lit ''completed''"
    using assms by (simp_all add: bad_group_line_def)
  have ne: "line \<noteq> []" using two by auto
  show ?thesis
    using v ne
    unfolding parseLine_def Let_def two_parts [OF two] js_index_def k
    by (simp add: lit_keys)
qed

lemma parseLine_ignored:
  assumes "ignored_line line"
  shows "parseLine state line = Inr state"
proof (cases "length (js_split (code_unit CHR '':'') line) = 2")
  case True
  then have "line_key line \<notin> set config_keys"
    using assms by (auto simp: ignored_line_def)
  with True show ?thesis by (rule parseLine_unknown_key)
next
  case False
  then show ?thesis by (rule parseLine_malformed)
qed

lemma parseLines_ignored:
  "\<forall>l \<in> set ls. ignored_line l \<Longrightarrow> parseLines state ls = Inr state"
  by (induction ls) (simp_all add: parseLine_ignored)

lemma parseLines_drop_ignored:
  "parseLines state (filter (\<lambda>l. \<not> ignored_line l) ls) = parseLines state ls"
proof (induction ls arbitrary: state)
  case Nil
  show ?case by simp
next
  case (Cons l ls)
  show ?case
  proof (cases "ignored_line l")
    case True
    then show ?thesis by (simp add: parseLine_ignored Cons.IH)
  next
    case False
    then show ?thesis by (simp add: Cons.IH split: sum.splits)
  qed
qed

text \<open>
  C10. \<open>parseTaskListConfig\<close> never throws: for every list of lines, each a list of
  UTF-16 code units, it returns a configuration. The ignored lines (an empty line, a
  line that does not split into exactly two parts at the colons, a line with an unknown
  key) change nothing: the result is the one of the list without them, and a list of
  such lines alone returns the defaults. A \<open>sort\<close> line with an unknown value, with
  only ignored lines after it, returns what the lines before it give with \<open>sort\<close>
  undefined and every other field as it was; likewise a \<open>group\<close> line and \<open>group\<close>.
\<close>

theorem parseTaskListConfig_total:
  "(\<exists>c. parseTaskListConfig ls = Inr c
        \<and> (bad_sort_line l3 \<and> (\<forall>l \<in> set ls'. ignored_line l) \<longrightarrow>
             parseTaskListConfig (ls @ l3 # ls') = Inr (c\<lparr>sort := None\<rparr>))
        \<and> (bad_group_line l4 \<and> (\<forall>l \<in> set ls'. ignored_line l) \<longrightarrow>
             parseTaskListConfig (ls @ l4 # ls') = Inr (c\<lparr>group := None\<rparr>)))
   \<and> parseTaskListConfig (filter (\<lambda>l. \<not> ignored_line l) ls) = parseTaskListConfig ls
   \<and> ((\<forall>l \<in> set ls. ignored_line l) \<longrightarrow> parseTaskListConfig ls = Inr TaskListConfigDefaults)"
proof -
  obtain c where c: "parseLines TaskListConfigDefaults ls = Inr c"
    using parseLines_total by blast
  have s: "parseLines TaskListConfigDefaults (ls @ l3 # ls') = Inr (c\<lparr>sort := None\<rparr>)"
    if "bad_sort_line l3" and "\<forall>l \<in> set ls'. ignored_line l"
    using parseLine_bad_sort [OF that(1), of c] that(2) c
    by (simp add: parseLines_append parseLines_ignored)
  have g: "parseLines TaskListConfigDefaults (ls @ l4 # ls') = Inr (c\<lparr>group := None\<rparr>)"
    if "bad_group_line l4" and "\<forall>l \<in> set ls'. ignored_line l"
    using parseLine_bad_group [OF that(1), of c] that(2) c
    by (simp add: parseLines_append parseLines_ignored)
  show ?thesis
    using c s g parseLines_drop_ignored [of TaskListConfigDefaults ls]
      parseLines_ignored [of ls TaskListConfigDefaults]
    by (simp add: parseTaskListConfig_def)
qed

lemma example_lines:
  "bad_sort_line (lit ''sort: name'')" "bad_group_line (12288 # lit ''group : tag'')"
  "ignored_line []" "ignored_line (lit ''no colon'')" "ignored_line (lit ''colour: red'')"
  "ignored_line (lit ''a:b:c'')"
  by (simp_all add: bad_sort_line_def bad_group_line_def ignored_line_def line_key_def
        line_value_def config_keys_def js_trim_def js_is_space_def js_white_space_def
        js_line_terminator_def lit_def code_unit_def)

theorem parseTaskListConfig_total_witness:
  "parseTaskListConfig [[], lit ''no colon'', lit ''sort: name'', lit ''colour: red'']
     = Inr (TaskListConfigDefaults\<lparr>sort := None\<rparr>)
   \<and> parseTaskListConfig [[], lit ''no colon'', 12288 # lit ''group : tag'', lit ''colour: red'']
     = Inr (TaskListConfigDefaults\<lparr>group := None\<rparr>)
   \<and> parseTaskListConfig [[], lit ''no colon''] = Inr TaskListConfigDefaults"
  using parseTaskListConfig_total [of "[[], lit ''no colon'']" "lit ''sort: name''"
      "[lit ''colour: red'']" "12288 # lit ''group : tag''"]
  by (auto simp: example_lines)

section \<open>Evaluation and calendar facts\<close>

lemmas date_eval =
  MonthFromTime_def DateFromTime_def DayWithinYear_def InLeapYear_def YearFromTime_def
  YearFromDay_def DayFromYear_def DaysInYear_def Day_def msPerDay_def MonthStart_def
  HourFromTime_def MinFromTime_def SecFromTime_def WeekDay_def getWeekday_def PY_WEEKDAYS_def
  Date_UTC_def MakeDay_def MakeDate_def MakeTime_def js_rem_def pymod_def divmod_def
  isLeapYear_def ONE_DAY_def ORDINAL_BASE_def MAXYEAR_def toOrdinal_def daysBetween_def
  fromOrdinal_def getMonthDays_def MONTH_DAYS_def monthRange_def combine_def fromDate_def
  DateTime_getTime_def DateTime_getWeekday_def utc_host_def

lemmas opt_eval =
  parseOptions_def initializeOptions_def no_options_def isInvalidDate_def resolve_def
  resolved_freq_def resolved_dtstart_def resolved_wkst_def default_bymonth_def
  default_bymonthday_def default_byweekday_def parse_bymonthday_def parse_byweekday_def
  parse_bytime_def bysetpos_invalid_def YEARLY_def MONTHLY_def WEEKLY_def DAILY_def HOURLY_def
  MINUTELY_def SECONDLY_def as_array_def has_day_rule_def js_Boolean_def js_notEmpty_def
  dateValue_def nonempty_or_null_def

lemma div_lo: "0 < n \<Longrightarrow> n * (a div n) \<le> (a::int)"
  using mult_div_mod_eq [of n a] pos_mod_sign [of n a] by linarith

lemma div_hi: "0 < n \<Longrightarrow> (a::int) < n * (a div n) + n"
  using pos_mod_bound [of n a] mult_div_mod_eq [of n a] by linarith

lemma DayFromYear_offset:
  "DayFromYear (1970 + k) = 365 * k + (k + 1) div 4 - (k + 69) div 100 + (k + 369) div 400"
  by (simp add: DayFromYear_def algebra_simps)

lemma DayFromYear_lower_est:
  assumes "146097 * k \<le> 400 * d"
  shows "DayFromYear (1970 + (k - 1)) \<le> d"
proof -
  have a: "4 * (k div 4) \<le> k" by (rule div_lo) simp
  have b: "k + 68 < 100 * ((k + 68) div 100) + 100" by (rule div_hi) simp
  have c: "400 * ((k + 368) div 400) \<le> k + 368" by (rule div_lo) simp
  show ?thesis unfolding DayFromYear_offset using a b c assms by simp
qed

lemma DayFromYear_upper_est:
  assumes "400 * d < 146097 * k + 146097"
  shows "d < DayFromYear (1970 + (k + 2))"
proof -
  have a: "k + 3 < 4 * ((k + 3) div 4) + 4" by (rule div_hi) simp
  have b: "100 * ((k + 71) div 100) \<le> k + 71" by (rule div_lo) simp
  have c: "k + 371 < 400 * ((k + 371) div 400) + 400" by (rule div_hi) simp
  show ?thesis unfolding DayFromYear_offset using a b c assms by simp
qed

lemma YearFromDay_lower: "DayFromYear (YearFromDay d) \<le> d"
proof -
  define k where "k = (d * 400) div 146097"
  have "146097 * k \<le> 400 * d"
    using div_lo [of 146097 "d * 400"] by (simp add: k_def)
  from DayFromYear_lower_est [OF this] show ?thesis
    unfolding YearFromDay_def Let_def k_def [symmetric] by (simp add: algebra_simps)
qed

lemma YearFromDay_upper: "d < DayFromYear (YearFromDay d + 1)"
proof -
  define k where "k = (d * 400) div 146097"
  have "400 * d < 146097 * k + 146097"
    using div_hi [of 146097 "d * 400"] by (simp add: k_def)
  from DayFromYear_upper_est [OF this] show ?thesis
    unfolding YearFromDay_def Let_def k_def [symmetric] by (simp add: algebra_simps)
qed

lemma DayWithinYear_nonneg: "0 \<le> DayWithinYear t"
  using YearFromDay_lower [of "Day t"] by (simp add: DayWithinYear_def YearFromTime_def)

lemma DateFromTime_pos: "1 \<le> DateFromTime t"
  using DayWithinYear_nonneg [of t]
  unfolding DateFromTime_def MonthFromTime_def MonthStart_def Let_def
  by (simp split: if_splits)

section \<open>Properties of parseOptions: day rules taken from the start\<close>

lemma day_rule_absent_D: "day_rule_absent options \<Longrightarrow> \<not> has_day_rule options"
  by (simp add: day_rule_absent_def has_day_rule_def js_Boolean_def js_notEmpty_def)

lemma parseOptions_Inr: "parseOptions h options = Inr p \<Longrightarrow> p = resolve h options"
  by (auto simp: parseOptions_def initializeOptions_def split: if_splits)

lemma parse_bymonthday_start:
  "parse_bymonthday (Some (One (DateFromTime t))) = ([DateFromTime t], [])"
  using DateFromTime_pos [of t] by (simp add: parse_bymonthday_def)

text \<open>
  C5. When the options give no day-selecting rule (no \<open>byweekno\<close>, \<open>byyearday\<close>,
  \<open>bymonthday\<close>, \<open>byweekday\<close> or \<open>byeaster\<close>), the resolved options take
  their day rule from the start: a yearly rule gets \<open>bymonthday\<close> = the day of the
  start, and \<open>bymonth\<close> = the month of the start when the given \<open>bymonth\<close> is
  absent or is the number 0 (the test is \<open>!opts.bymonth\<close>), else the given months; a
  monthly rule gets \<open>bymonthday\<close> = the day of the start; a weekly rule gets
  \<open>byweekday\<close> = the weekday of the start.
\<close>

theorem default_day_rules:
  assumes ok: "parseOptions h options = Inr p" and nd: "day_rule_absent options"
  shows "(freq p = YEARLY \<longrightarrow>
            (\<not> js_Boolean (o_bymonth options) \<longrightarrow> bymonth p = Some [MonthFromTime (dtstart p) + 1])
          \<and> (js_Boolean (o_bymonth options) \<longrightarrow> bymonth p = as_array (o_bymonth options))
          \<and> bymonthday p = Some [DateFromTime (dtstart p)])
       \<and> (freq p = MONTHLY \<longrightarrow> bymonthday p = Some [DateFromTime (dtstart p)])
       \<and> (freq p = WEEKLY \<longrightarrow> byweekday p = Some [getWeekday (dtstart p)])"
proof -
  have p: "p = resolve h options" using ok by (rule parseOptions_Inr)
  have nh: "\<not> has_day_rule options" using nd by (rule day_rule_absent_D)
  show ?thesis
    unfolding p resolve_def Let_def
    by (simp add: nh default_bymonth_def default_bymonthday_def default_byweekday_def
          parse_bymonthday_start parse_byweekday_def nonempty_or_null_def as_array_def
          YEARLY_def MONTHLY_def WEEKLY_def)
qed

lemma from_start_parsed:
  "0 \<le> f \<Longrightarrow> f \<le> 6 \<Longrightarrow> parseOptions utc_host (from_start f) = Inr (resolve utc_host (from_start f))"
  by (simp add: parseOptions_def initializeOptions_def from_start_def no_options_def
        isInvalidDate_def resolved_freq_def bysetpos_invalid_def as_array_def)

lemma from_start_absent: "day_rule_absent (from_start f)"
  by (simp add: day_rule_absent_def from_start_def no_options_def)

lemma resolve_from_start_sel:
  "freq (resolve utc_host (from_start f)) = f"
  "dtstart (resolve utc_host (from_start f)) = 1710460800000"
  by (simp_all add: resolve_def from_start_def no_options_def resolved_freq_def
        resolved_dtstart_def dateValue_def Let_def)

lemma start_fields:
  "MonthFromTime 1710460800000 = 2" "DateFromTime 1710460800000 = 15"
  "getWeekday 1710460800000 = 4"
  by (simp_all add: date_eval Let_def)

theorem default_day_rules_witness:
  "bymonth (resolve utc_host (from_start YEARLY)) = Some [3]
   \<and> bymonthday (resolve utc_host (from_start YEARLY)) = Some [15]
   \<and> bymonthday (resolve utc_host (from_start MONTHLY)) = Some [15]
   \<and> byweekday (resolve utc_host (from_start WEEKLY)) = Some [4]"
  using default_day_rules [OF from_start_parsed from_start_absent, of YEARLY]
    default_day_rules [OF from_start_parsed from_start_absent, of MONTHLY]
    default_day_rules [OF from_start_parsed from_start_absent, of WEEKLY]
  by (simp add: resolve_from_start_sel start_fields)
     (simp add: YEARLY_def MONTHLY_def WEEKLY_def from_start_def no_options_def js_Boolean_def)

text \<open>A yearly rule given with \<open>bymonth: 0\<close>: the month is present, and it is
  replaced by the month of the start (March).\<close>

theorem bymonth_zero_replaced:
  "o_bymonth yearly_month_zero = Some (One 0)
   \<and> map_sum id bymonth (parseOptions utc_host yearly_month_zero) = Inr (Some [3])"
  by (simp add: yearly_month_zero_def from_start_def opt_eval date_eval Let_def)

section \<open>Properties of parseOptions: weekday ordinals under fine frequencies\<close>

lemma split_weekdays_finer:
  "MONTHLY < f \<Longrightarrow> snd (split_weekdays f ws) = []"
  by (induction ws) (auto split: prod.splits ByWeekday.splits option.splits)

lemma split_weekdays_strip:
  "MONTHLY < f \<Longrightarrow> split_weekdays f (map strip_ordinal ws) = split_weekdays f ws"
  by (induction ws) (auto split: prod.splits ByWeekday.splits option.splits)

lemma parse_byweekday_strip:
  "MONTHLY < f \<Longrightarrow> parse_byweekday f (map_option strip_ordinals v) = parse_byweekday f v"
  by (auto simp: parse_byweekday_def strip_ordinals_def split_weekdays_strip
           split: option.splits one_or_many.splits ByWeekday.splits prod.splits)

lemma parse_byweekday_finer:
  "MONTHLY < f \<Longrightarrow> snd (parse_byweekday f v) = None"
proof (cases v)
  case None
  then show ?thesis by (simp add: parse_byweekday_def)
next
  case (Some x)
  assume f: "MONTHLY < f"
  show ?thesis
  proof (cases x)
    case (One w)
    with Some f show ?thesis
      by (auto simp: parse_byweekday_def split: ByWeekday.splits option.splits)
  next
    case (Many ws)
    with Some split_weekdays_finer [OF f, of ws] show ?thesis
      by (auto simp: parse_byweekday_def nonempty_or_null_def split: prod.splits)
  qed
qed

lemma default_byweekday_strip:
  "default_byweekday f start (options\<lparr>o_byweekday := map_option strip_ordinals (o_byweekday options)\<rparr>)
     = map_option strip_ordinals (default_byweekday f start options)"
  by (simp add: default_byweekday_def has_day_rule_def strip_ordinals_def)

lemma resolve_strip:
  assumes "MONTHLY < resolved_freq options"
  shows "resolve h (options\<lparr>o_byweekday := map_option strip_ordinals (o_byweekday options)\<rparr>)
           = resolve h options"
proof -
  let ?o = "options\<lparr>o_byweekday := map_option strip_ordinals (o_byweekday options)\<rparr>"
  have f: "resolved_freq ?o = resolved_freq options" by (simp add: resolved_freq_def)
  have s: "resolved_dtstart h ?o = resolved_dtstart h options" by (simp add: resolved_dtstart_def)
  have w: "resolved_wkst ?o = resolved_wkst options" by (simp add: resolved_wkst_def)
  have hd: "has_day_rule ?o = has_day_rule options" by (simp add: has_day_rule_def)
  have m: "default_bymonth x y ?o = default_bymonth x y options" for x y
    by (simp add: default_bymonth_def hd)
  have md: "default_bymonthday x y ?o = default_bymonthday x y options" for x y
    by (simp add: default_bymonthday_def hd)
  show ?thesis
    unfolding resolve_def f s w Let_def m md default_byweekday_strip
      parse_byweekday_strip [OF assms]
    by simp
qed

text \<open>
  C8. With \<open>byeaster\<close> absent and a given frequency finer than monthly (weekly to
  secondly) \<open>parseOptions\<close> raises no error over a weekday with an ordinal: it reads
  the item as the plain weekday. The options resolve exactly as they do with every
  ordinal removed, and no nth-weekday rule is left in the result. (A \<open>byeaster\<close> that
  is present makes the frequency yearly, and the ordinal is kept.)
\<close>

theorem ordinal_dropped:
  assumes "o_byeaster options = None" and "o_freq options = Some f" and "MONTHLY < f"
  shows "parseOptions h options
           = parseOptions h (options\<lparr>o_byweekday := map_option strip_ordinals (o_byweekday options)\<rparr>)
         \<and> (\<forall>p. parseOptions h options = Inr p \<longrightarrow> bynweekday p = None)"
proof -
  let ?o = "options\<lparr>o_byweekday := map_option strip_ordinals (o_byweekday options)\<rparr>"
  have fine: "MONTHLY < resolved_freq options"
    using assms by (simp add: resolved_freq_def)
  have f: "resolved_freq ?o = resolved_freq options" by (simp add: resolved_freq_def)
  have "parseOptions h ?o = parseOptions h options"
    by (simp add: parseOptions_def initializeOptions_def f resolve_strip [OF fine])
  moreover have "bynweekday (resolve h options) = None"
    by (simp add: resolve_def Let_def parse_byweekday_finer [OF fine])
  ultimately show ?thesis
    by (auto dest: parseOptions_Inr)
qed

lemma weekly_second_tuesday_freq:
  "o_byeaster weekly_second_tuesday = None" "o_freq weekly_second_tuesday = Some WEEKLY"
  by (simp_all add: weekly_second_tuesday_def from_start_def no_options_def)

lemma weekly_finer: "MONTHLY < WEEKLY"
  by (simp add: MONTHLY_def WEEKLY_def)

lemma weekly_second_tuesday_parsed:
  "parseOptions utc_host weekly_second_tuesday = Inr (resolve utc_host weekly_second_tuesday)"
  by (simp add: parseOptions_def initializeOptions_def weekly_second_tuesday_def from_start_def
        no_options_def isInvalidDate_def resolved_freq_def bysetpos_invalid_def as_array_def
        WEEKLY_def)

theorem ordinal_dropped_witness:
  "parseOptions utc_host weekly_second_tuesday
     = parseOptions utc_host ((from_start WEEKLY)\<lparr>o_byweekday := Some (Many [WdObj (Weekday 1 None)])\<rparr>)
   \<and> bynweekday (resolve utc_host weekly_second_tuesday) = None"
  using ordinal_dropped [of weekly_second_tuesday WEEKLY utc_host]
  by (simp add: weekly_second_tuesday_freq weekly_second_tuesday_parsed weekly_finer)
     (simp add: weekly_second_tuesday_def strip_ordinals_def)

text \<open>A weekly rule on the second Tuesday is constructed, as a rule on every Tuesday.\<close>

theorem ordinal_not_rejected:
  "parseOptions utc_host weekly_second_tuesday =
     Inr \<lparr>freq = 2, dtstart = 1710460800000, interval = 1, wkst = 0, count = None,
          until = None, tzid = None, bysetpos = None, bymonth = None, bymonthday = Some [],
          bynmonthday = Some [], byyearday = None, byweekno = None, byweekday = Some [1],
          bynweekday = None, byhour = Some [0], byminute = Some [0], bysecond = Some [0],
          byeaster = None\<rparr>"
  by (simp add: weekly_second_tuesday_def from_start_def opt_eval date_eval Let_def)

section \<open>One iteration, two sinks\<close>

lemma feed_append:
  "feed ir (xs @ ys) = (if taken ir xs then feed (feed ir xs) ys else feed ir xs)"
  by (induction xs arbitrary: ir) auto

lemma taken_append:
  "taken ir (xs @ ys) = (taken ir xs \<and> taken (feed ir xs) ys)"
  by (induction xs arbitrary: ir) auto

lemma accept_plain:
  "plain_all ir \<Longrightarrow> accept ir d = (True, ir\<lparr>total := total ir + 1, result := result ir @ [d]\<rparr>)"
  by (simp add: plain_all_def accept_def add_def Let_def)

lemma plain_all_accept: "plain_all ir \<Longrightarrow> plain_all (snd (accept ir d))"
  by (simp add: accept_plain) (simp add: plain_all_def)

text \<open>One period: what a second sink does with the dates a plain sink took.\<close>

lemma emit_dates_sim:
  assumes "plain_all sA" and "emit_dates acc_ir h opts dates sA cnt = Some rA"
  shows "\<exists>more sA'. plain_all sA' \<and> result sA' = result sA @ more \<and>
           ((\<exists>cnt'. rA = Running sA' cnt' \<and>
               emit_dates acc_ir h opts dates sS cnt =
                 Some (if taken sS more then Running (feed sS more) cnt' else Stopped (feed sS more)))
            \<or> (rA = Stopped sA' \<and>
               emit_dates acc_ir h opts dates sS cnt = Some (Stopped (feed sS more))))"
  using assms
proof (induction dates arbitrary: sA sS cnt)
  case Nil
  then show ?case
    by (intro exI [of _ "[]"] exI [of _ sA]) auto
next
  case (Cons res rest)
  show ?case
  proof (cases "case until opts of None \<Rightarrow> False | Some u \<Rightarrow> res > u")
    case True
    then have "rA = Stopped sA" using Cons.prems(2) by simp
    with True Cons.prems(1) show ?thesis
      by (intro exI [of _ "[]"] exI [of _ sA]) simp
  next
    case False
    note nu = this
    show ?thesis
    proof (cases "res \<ge> dtstart opts")
      case False
      then have "emit_dates acc_ir h opts rest sA cnt = Some rA"
        using Cons.prems(2) nu by simp
      from Cons.IH [OF Cons.prems(1) this, of sS] False nu show ?thesis by simp
    next
      case True
      define z where "z = rezoneIfNeeded h res opts"
      define sA1 where "sA1 = snd (accept sA z)"
      have a1: "accept sA z = (True, sA1)" and p1: "plain_all sA1"
        and r1: "result sA1 = result sA @ [z]"
        using Cons.prems(1) by (simp_all add: sA1_def accept_plain plain_all_def)
      define stop where "stop = (case cnt of None \<Rightarrow> False | Some n \<Rightarrow> n \<noteq> 0 \<and> n - 1 = 0)"
      define cnt1 where "cnt1 = (case cnt of None \<Rightarrow> None | Some n \<Rightarrow> if n = 0 then Some n else Some (n - 1))"
      show ?thesis
      proof (cases stop)
        case True
        then have rA: "rA = Stopped sA1"
          using Cons.prems(2) nu \<open>res \<ge> dtstart opts\<close> a1
          by (auto simp: z_def stop_def split: option.splits if_splits)
        have "emit_dates acc_ir h opts (res # rest) sS cnt = Some (Stopped (feed sS [z]))"
          using True nu \<open>res \<ge> dtstart opts\<close>
          by (auto simp: z_def stop_def split: option.splits if_splits prod.splits)
        with rA p1 r1 show ?thesis
          by (intro exI [of _ "[z]"] exI [of _ sA1]) simp
      next
        case False
        then have rest: "emit_dates acc_ir h opts rest sA1 cnt1 = Some rA"
          using Cons.prems(2) nu \<open>res \<ge> dtstart opts\<close> a1
          by (auto simp: z_def stop_def cnt1_def split: option.splits if_splits)
        show ?thesis
        proof (cases "fst (accept sS z)")
          case True
          have eS: "emit_dates acc_ir h opts (res # rest) sS cnt
                  = emit_dates acc_ir h opts rest (snd (accept sS z)) cnt1"
            using True False nu \<open>res \<ge> dtstart opts\<close>
            by (auto simp: z_def stop_def cnt1_def split: option.splits if_splits prod.splits)
          from Cons.IH [OF p1 rest, of "snd (accept sS z)"]
          obtain more sA' where m: "plain_all sA'" "result sA' = result sA1 @ more"
            "(\<exists>cnt'. rA = Running sA' cnt' \<and>
               emit_dates acc_ir h opts rest (snd (accept sS z)) cnt1 =
                 Some (if taken (snd (accept sS z)) more then Running (feed (snd (accept sS z)) more) cnt'
                       else Stopped (feed (snd (accept sS z)) more)))
            \<or> (rA = Stopped sA' \<and>
               emit_dates acc_ir h opts rest (snd (accept sS z)) cnt1
                 = Some (Stopped (feed (snd (accept sS z)) more)))"
            by blast
          show ?thesis
            using m True unfolding eS r1
            by (intro exI [of _ "z # more"] exI [of _ sA']) auto
        next
          case False
          have eS: "emit_dates acc_ir h opts (res # rest) sS cnt = Some (Stopped (snd (accept sS z)))"
            using False nu \<open>res \<ge> dtstart opts\<close>
            by (auto simp: z_def split: option.splits if_splits prod.splits)
          from Cons.IH [OF p1 rest, of sS]
          obtain more sA' where m: "plain_all sA'" "result sA' = result sA1 @ more"
            "(\<exists>cnt'. rA = Running sA' cnt') \<or> rA = Stopped sA'"
            by blast
          show ?thesis
            using m False unfolding eS r1
            by (intro exI [of _ "z # more"] exI [of _ sA']) auto
        qed
      qed
    qed
  qed
qed

lemma iter_loop_unfold:
  "iter_loop acc h opts fuel cd ii ts s cnt =
     (if fuel = 0 then None
      else
        (case loop_dates h opts cd ii ts of
           None \<Rightarrow> None
         | Some dates \<Rightarrow>
             (case emit_dates acc h opts dates s cnt of
                None \<Rightarrow> None
              | Some (Stopped s') \<Rightarrow> Some s'
              | Some (Running s' cnt') \<Rightarrow>
                  (case loop_next h opts fuel cd ii ts of
                     Finished \<Rightarrow> Some s'
                   | Failed \<Rightarrow> None
                   | Next cd' ii' ts' \<Rightarrow> iter_loop acc h opts (fuel - 1) cd' ii' ts' s' cnt'))))"
  by (subst iter_loop.simps)
     (simp add: loop_dates_def loop_next_def loop_filtered_def Let_def
        split: option.splits emitted.splits)

lemma iter_loop_sim:
  assumes "plain_all sA" and "iter_loop acc_ir h opts fuel cd ii ts sA cnt = Some sA'"
  shows "\<exists>more. plain_all sA' \<and> result sA' = result sA @ more \<and>
           iter_loop acc_ir h opts fuel cd ii ts sS cnt = Some (feed sS more)"
  using assms
proof (induction fuel arbitrary: cd ii ts sA sS cnt)
  case 0
  then show ?case by (simp add: iter_loop_unfold)
next
  case (Suc n)
  from Suc.prems(2) obtain dates where d: "loop_dates h opts cd ii ts = Some dates"
    by (subst (asm) iter_loop_unfold) (auto split: option.splits)
  from Suc.prems(2) d obtain rA where e: "emit_dates acc_ir h opts dates sA cnt = Some rA"
    by (subst (asm) iter_loop_unfold) (auto split: option.splits)
  from emit_dates_sim [OF Suc.prems(1) e, of sS]
  obtain more sA1 where m: "plain_all sA1" "result sA1 = result sA @ more"
    and alt: "(\<exists>cnt'. rA = Running sA1 cnt' \<and>
               emit_dates acc_ir h opts dates sS cnt =
                 Some (if taken sS more then Running (feed sS more) cnt' else Stopped (feed sS more)))
            \<or> (rA = Stopped sA1 \<and>
               emit_dates acc_ir h opts dates sS cnt = Some (Stopped (feed sS more)))"
    by blast
  from alt show ?case
  proof
    assume "rA = Stopped sA1 \<and> emit_dates acc_ir h opts dates sS cnt = Some (Stopped (feed sS more))"
    then have "sA' = sA1" and "iter_loop acc_ir h opts (Suc n) cd ii ts sS cnt = Some (feed sS more)"
      using Suc.prems(2) d e by (simp_all add: iter_loop_unfold [of _ _ _ "Suc n"])
    with m show ?thesis by blast
  next
    assume "\<exists>cnt'. rA = Running sA1 cnt' \<and>
               emit_dates acc_ir h opts dates sS cnt =
                 Some (if taken sS more then Running (feed sS more) cnt' else Stopped (feed sS more))"
    then obtain cnt' where rA: "rA = Running sA1 cnt'"
      and eS: "emit_dates acc_ir h opts dates sS cnt =
                 Some (if taken sS more then Running (feed sS more) cnt' else Stopped (feed sS more))"
      by blast
    show ?thesis
    proof (cases "loop_next h opts (Suc n) cd ii ts")
      case Finished
      then have "sA' = sA1" and "iter_loop acc_ir h opts (Suc n) cd ii ts sS cnt = Some (feed sS more)"
        using Suc.prems(2) d e rA eS by (simp_all add: iter_loop_unfold [of _ _ _ "Suc n"])
      with m show ?thesis by blast
    next
      case Failed
      then show ?thesis
        using Suc.prems(2) d e rA by (simp add: iter_loop_unfold [of _ _ _ "Suc n"])
    next
      case (Next cd' ii' ts')
      then have rec: "iter_loop acc_ir h opts n cd' ii' ts' sA1 cnt' = Some sA'"
        using Suc.prems(2) d e rA by (simp add: iter_loop_unfold [of _ _ _ "Suc n"])
      from Suc.IH [OF m(1) rec, of "feed sS more"]
      obtain more2 where m2: "plain_all sA'" "result sA' = result sA1 @ more2"
        "iter_loop acc_ir h opts n cd' ii' ts' (feed sS more) cnt' = Some (feed (feed sS more) more2)"
        by blast
      have "iter_loop acc_ir h opts (Suc n) cd ii ts sS cnt = Some (feed sS (more @ more2))"
        using d eS Next m2(3) by (simp add: iter_loop_unfold [of _ _ _ "Suc n"] feed_append)
      with m m2 show ?thesis
        by (intro exI [of _ "more @ more2"]) simp
    qed
  qed
qed

lemma iter_sim:
  assumes "iter h fuel (new_IterResult QAll) opts = Some (DateList xs)"
  shows "iter h fuel ir opts = Some (getValue (feed ir xs))"
proof -
  have p: "plain_all (new_IterResult QAll)"
    by (simp add: plain_all_def new_IterResult_def)
  obtain sA' where run: "iter_run acc_ir h fuel (new_IterResult QAll) opts = Some sA'"
    and v: "getValue sA' = DateList xs"
    using assms by (auto simp: iter_def)
  show ?thesis
  proof (cases "count opts = Some 0 \<or> interval opts = 0")
    case True
    then have "sA' = new_IterResult QAll" using run by (simp add: iter_run_def)
    then have "xs = []" using v by (simp add: getValue_def new_IterResult_def)
    with True show ?thesis by (simp add: iter_def iter_run_def)
  next
    case False
    define cd where "cd = fromDate (dtstart opts)"
    define ii where "ii = rebuild h opts (year cd) (month cd) new_Iterinfo"
    from run False obtain ts where ts: "makeTimeset opts cd = Some ts"
      and loop: "iter_loop acc_ir h opts fuel cd ii ts (new_IterResult QAll) (count opts) = Some sA'"
      by (auto simp: iter_run_def Let_def cd_def ii_def split: option.splits)
    from iter_loop_sim [OF p loop, of ir]
    obtain more where m: "plain_all sA'" "result sA' = result (new_IterResult QAll) @ more"
      "iter_loop acc_ir h opts fuel cd ii ts ir (count opts) = Some (feed ir more)"
      by blast
    have "more = xs"
      using m(1,2) v by (simp add: getValue_def plain_all_def new_IterResult_def)
    then show ?thesis
      using False ts m(3) by (simp add: iter_def iter_run_def Let_def cd_def ii_def)
  qed
qed

section \<open>The count does not change the periods\<close>

lemma isFiltered_count [simp]: "isFiltered ii d (opts\<lparr>count := c\<rparr>) = isFiltered ii d opts"
  by (simp add: isFiltered_def)

lemma getdayset_count [simp]: "getdayset h (opts\<lparr>count := c\<rparr>) ii f y m d = getdayset h opts ii f y m d"
  by (simp add: getdayset_def wdayset_def)

lemma removeFilteredDays_count [simp]:
  "removeFilteredDays ds a b ii (opts\<lparr>count := c\<rparr>) = removeFilteredDays ds a b ii opts"
  by (simp add: removeFilteredDays_def filter_day_def [abs_def] Let_def cong: option.case_cong)

lemma period_dates_count [simp]:
  "period_dates (opts\<lparr>count := c\<rparr>) ii ts ds a b = period_dates opts ii ts ds a b"
  by (simp add: period_dates_def)

lemma rebuildYear_count [simp]: "rebuildYear h y (opts\<lparr>count := c\<rparr>) = rebuildYear h y opts"
  by (simp add: rebuildYear_def Let_def cong: option.case_cong if_cong)

lemma rebuildMonth_count [simp]:
  "rebuildMonth y m yl mr wm (opts\<lparr>count := c\<rparr>) = rebuildMonth y m yl mr wm opts"
  by (simp add: rebuildMonth_def Let_def cong: option.case_cong if_cong)

lemma rebuild_count [simp]: "rebuild h (opts\<lparr>count := c\<rparr>) y m ii = rebuild h opts y m ii"
  by (simp add: rebuild_def Let_def cong: option.case_cong if_cong)

lemma mtimeset_count [simp]: "mtimeset (opts\<lparr>count := c\<rparr>) hr mi ms = mtimeset opts hr mi ms"
  by (simp add: mtimeset_def cong: option.case_cong)

lemma htimeset_count [simp]: "htimeset (opts\<lparr>count := c\<rparr>) hr ms = htimeset opts hr ms"
  by (simp add: htimeset_def cong: option.case_cong)

lemma gettimeset_count [simp]:
  "gettimeset (opts\<lparr>count := c\<rparr>) f hr mi sec ms = gettimeset opts f hr mi sec ms"
  by (simp add: gettimeset_def)

lemma buildTimeset_count [simp]: "buildTimeset (opts\<lparr>count := c\<rparr>) = buildTimeset opts"
  by (simp add: buildTimeset_def cong: option.case_cong if_cong)

lemma makeTimeset_count [simp]: "makeTimeset (opts\<lparr>count := c\<rparr>) cd = makeTimeset opts cd"
  by (simp add: makeTimeset_def Let_def)

lemma DateTime_add_count [simp]:
  "DateTime_add fuel (opts\<lparr>count := c\<rparr>) flt cd = DateTime_add fuel opts flt cd"
  by (simp add: DateTime_add_def Let_def)

lemma emit_dates_count [simp]:
  "emit_dates acc h (opts\<lparr>count := c\<rparr>) dates s cnt = emit_dates acc h opts dates s cnt"
  by (induction dates arbitrary: s cnt) (simp_all add: rezoneIfNeeded_def cong: option.case_cong if_cong)

lemma loop_dates_count [simp]: "loop_dates h (opts\<lparr>count := c\<rparr>) cd ii ts = loop_dates h opts cd ii ts"
  by (simp add: loop_dates_def loop_filtered_def Let_def cong: option.case_cong if_cong)

lemma loop_next_count [simp]:
  "loop_next h (opts\<lparr>count := c\<rparr>) fuel cd ii ts = loop_next h opts fuel cd ii ts"
  by (simp add: loop_next_def loop_filtered_def Let_def cong: option.case_cong if_cong)

lemma iter_loop_count_indep:
  "iter_loop acc h (opts\<lparr>count := c\<rparr>) fuel cd ii ts s cnt = iter_loop acc h opts fuel cd ii ts s cnt"
proof (induction fuel arbitrary: cd ii ts s cnt)
  case 0
  show ?case by (simp add: iter_loop_unfold)
next
  case (Suc n)
  show ?case
    by (subst (1 2) iter_loop_unfold)
       (simp add: Suc.IH split: option.splits emitted.splits next_period.splits)
qed


section \<open>Rules with interval 0 or count 0\<close>

lemma iter_immediate:
  "count opts = Some 0 \<or> interval opts = 0 \<Longrightarrow> iter h fuel ir opts = Some (getValue ir)"
  by (auto simp: iter_def iter_run_def)

lemma getValue_new [simp]:
  "getValue (new_IterResult q) = empty_value q"
  "getValue (new_CallbackIterResult q f) = empty_value q"
  by (cases q; simp add: getValue_def new_IterResult_def new_CallbackIterResult_def empty_value_def)+

lemma findCacheDiff_method: "\<not> findCacheDiff q q' \<Longrightarrow> method_of q' = method_of q"
  by (cases q; cases q'; simp)

lemma quiet_cacheAdd:
  "quiet_cache c \<Longrightarrow> quiet_cache (cacheAdd q (empty_value q) c)"
  by (cases q) (auto simp: quiet_cache_def cacheAdd_def empty_value_def)

lemma cached_list_subset:
  "set (cached_list c q) \<subseteq> set (before c @ after c @ between c)"
  by (cases q) (auto simp: cached_list_def)

lemma quiet_lookup:
  assumes "quiet_cache c"
    and "filter (\<lambda>item. \<not> findCacheDiff q (fst item)) (cached_list c q) = item # rest"
  shows "snd item = empty_value q"
proof -
  have "item \<in> set (filter (\<lambda>item. \<not> findCacheDiff q (fst item)) (cached_list c q))"
    using assms(2) by simp
  then have m: "item \<in> set (cached_list c q)" and d: "\<not> findCacheDiff q (fst item)" by auto
  from m cached_list_subset have "snd item = empty_value (fst item)"
    using assms(1) unfolding quiet_cache_def by blast
  with findCacheDiff_method [OF d] show ?thesis by (simp add: empty_value_def)
qed

lemma cacheGet_quiet:
  assumes "quiet_cache c"
  shows "(fst (cacheGet q c) = None \<or> fst (cacheGet q c) = Some (empty_value q))
         \<and> quiet_cache (snd (cacheGet q c))"
proof (cases "method_of q = All")
  case True
  then show ?thesis using assms
    by (auto simp: cacheGet_def Let_def quiet_cache_def is_falsy_def empty_value_def)
next
  case False
  show ?thesis
  proof (cases "filter (\<lambda>item. \<not> findCacheDiff q (fst item)) (cached_list c q)")
    case Nil
    with False assms quiet_cacheAdd [OF assms, of q] show ?thesis
      by (auto simp: cacheGet_def Let_def is_falsy_def quiet_cache_def [of c])
  next
    case (Cons item rest)
    from quiet_lookup [OF assms Cons] Cons False assms quiet_cacheAdd [OF assms, of q]
    show ?thesis
      by (auto simp: cacheGet_def Let_def is_falsy_def quiet_cache_def [of c] split: if_splits)
  qed
qed

lemma cached_query_empty:
  assumes z: "count (r_options r) = Some 0 \<or> interval (r_options r) = 0" and q: "quiet r"
  shows "\<exists>r'. cached_query h fuel q cb r = Some (empty_value q, r') \<and> quiet r'
              \<and> r_options r' = r_options r"
proof (cases cb)
  case (Some f)
  then show ?thesis using q by (simp add: cached_query_def iter_immediate [OF z])
next
  case None
  note cb = this
  show ?thesis
  proof (cases "r_cache r")
    case None
    then show ?thesis using cb q
      by (simp add: cached_query_def RRule_cacheGet_def RRule_cacheAdd_def iter_immediate [OF z])
  next
    case (Some c)
    then have qc: "quiet_cache c" using q by (simp add: quiet_def)
    from cacheGet_quiet [OF qc, of q] quiet_cacheAdd [of "snd (cacheGet q c)" q]
    show ?thesis using cb Some z
      by (auto simp: cached_query_def RRule_cacheGet_def RRule_cacheAdd_def iter_immediate
            quiet_def)
  qed
qed

text \<open>
  C7. A rule with \<open>interval\<close> 0 or \<open>count\<close> 0 answers every query at once, with
  any fuel (also none: no period is generated): \<open>all\<close> and \<open>between\<close> return the
  empty list, \<open>before\<close> and \<open>after\<close> return \<open>null\<close>. The cache of the rule holds
  only such answers before the call and after it.
\<close>

theorem zero_interval_or_count_empty:
  assumes "count (r_options r) = Some 0 \<or> interval (r_options r) = 0" and "quiet r"
  shows "(\<exists>r'. RRule_all h fuel cb r = Some (DateList [], r') \<and> quiet r')
       \<and> (\<exists>r'. RRule_between h fuel (ValidDate a) (ValidDate b) inc cb r = Some (Inr (DateList [], r'))
               \<and> quiet r')
       \<and> (\<exists>r'. RRule_before h fuel (ValidDate dt) inc r = Some (Inr (DateOrNull None, r')) \<and> quiet r')
       \<and> (\<exists>r'. RRule_after h fuel (ValidDate dt) inc r = Some (Inr (DateOrNull None, r')) \<and> quiet r')"
  using cached_query_empty [OF assms, of h fuel QAll cb]
    cached_query_empty [OF assms, of h fuel "QBetween a b inc" cb]
    cached_query_empty [OF assms, of h fuel "QBefore dt inc" None]
    cached_query_empty [OF assms, of h fuel "QAfter dt inc" None]
  by (auto simp: RRule_all_def RRule_between_def RRule_before_def RRule_after_def empty_value_def)

text \<open>Every rule that the constructor builds has a cache of this kind, or none.\<close>

lemma new_RRule_quiet: "new_RRule h opts noCache = Inr r \<Longrightarrow> quiet r"
  by (auto simp: new_RRule_def quiet_def quiet_cache_def new_Cache_def split: sum.splits)

lemma every_day_no_interval_sel:
  "interval (r_options every_day_no_interval) = 0" "quiet every_day_no_interval"
  by (simp_all add: every_day_no_interval_def quiet_def quiet_cache_def new_Cache_def)

theorem zero_interval_or_count_empty_witness:
  "fst (the (RRule_all utc_host 0 None every_day_no_interval)) = DateList []
   \<and> map_sum id fst (the (RRule_after utc_host 0 (ValidDate 0) True every_day_no_interval))
       = Inr (DateOrNull None)"
  using zero_interval_or_count_empty [of every_day_no_interval utc_host 0 None 0 0 True 0]
  by (auto simp: every_day_no_interval_sel)

section \<open>The dates of a period\<close>

lemma upto_snoc: "[a..a + int (Suc n) - 1] = [a..a + int n - 1] @ [a + int n]"
  using upto_rec2 [of a "a + int n"] by simp

lemma removeFilteredDays_prefix:
  "a + int n \<le> b \<Longrightarrow>
   foldl (filter_day ii options) (fill_days a b, False) (js_range a (a + int n))
     = (kept_days ii options a (a + int n) b, 0 < n \<and> isFiltered ii (a + int n - 1) options)"
proof (induction n)
  case 0
  show ?case by (auto simp: js_range_def kept_days_def fun_eq_iff)
next
  case (Suc n)
  then have le: "a + int n \<le> b" and lt: "a + int n < b" by simp_all
  have cur: "kept_days ii options a (a + int n) b (a + int n) = Some (a + int n)"
    using lt by (simp add: kept_days_def fill_days_def)
  have upd: "(kept_days ii options a (a + int n) b)(a + int n := None)
               = kept_days ii options a (a + int (Suc n)) b" if "isFiltered ii (a + int n) options"
    using that by (auto simp: kept_days_def fun_eq_iff)
  have same: "kept_days ii options a (a + int n) b = kept_days ii options a (a + int (Suc n)) b"
    if "\<not> isFiltered ii (a + int n) options"
  proof
    fix x
    show "kept_days ii options a (a + int n) b x = kept_days ii options a (a + int (Suc n)) b x"
    proof (cases "x = a + int n")
      case True
      then show ?thesis using that by (simp add: kept_days_def)
    next
      case False
      then have "x < a + int (Suc n) \<longleftrightarrow> x < a + int n" by auto
      then show ?thesis by (simp add: kept_days_def)
    qed
  qed
  have "foldl (filter_day ii options) (fill_days a b, False) (js_range a (a + int (Suc n)))
          = filter_day ii options
              (foldl (filter_day ii options) (fill_days a b, False) (js_range a (a + int n)))
              (a + int n)"
    unfolding js_range_def upto_snoc by simp
  also have "\<dots> = filter_day ii options
              (kept_days ii options a (a + int n) b, 0 < n \<and> isFiltered ii (a + int n - 1) options)
              (a + int n)"
    using Suc.IH [OF le] by simp
  also have "\<dots> = (kept_days ii options a (a + int (Suc n)) b,
                     0 < Suc n \<and> isFiltered ii (a + int (Suc n) - 1) options)"
    using upd same by (auto simp: filter_day_def cur Let_def algebra_simps)
  finally show ?case .
qed

lemma removeFilteredDays_fill:
  "removeFilteredDays (fill_days a b) a b ii options
     = (kept_days ii options a b b, a < b \<and> isFiltered ii (b - 1) options)"
proof (cases "a \<le> b")
  case True
  then obtain n where n: "b = a + int n" by (metis zle_iff_zadd)
  show ?thesis
    using removeFilteredDays_prefix [of a n b ii options]
    unfolding removeFilteredDays_def n by auto
next
  case False
  then show ?thesis
    by (auto simp: removeFilteredDays_def js_range_def kept_days_def fill_days_def fun_eq_iff)
qed

lemma present_days_kept:
  "present_days (kept_days ii options a b b) a b
     = filter (\<lambda>i. \<not> isFiltered ii i options) [a..b - 1]"
proof -
  have "List.map_filter (kept_days ii options a b b) xs
          = filter (\<lambda>i. \<not> isFiltered ii i options) xs" if "set xs \<subseteq> {a..b - 1}" for xs
    using that
    by (induction xs) (auto simp: List.map_filter_simps kept_days_def fill_days_def)
  then show ?thesis by (simp add: present_days_def js_range_def)
qed

lemma getdayset_filled:
  "getdayset h options ii f y m d
     = (fill_days (fst (snd (getdayset h options ii f y m d)))
                  (snd (snd (getdayset h options ii f y m d))),
        snd (getdayset h options ii f y m d))"
  by (simp add: getdayset_def ydayset_def mdayset_def wdayset_def ddayset_def Let_def
        split: option.splits)

lemma loop_filtered_bounds:
  "loop_filtered h opts cd ii
     = (kept_days ii opts (fst (dayset_bounds h opts ii cd)) (snd (dayset_bounds h opts ii cd))
          (snd (dayset_bounds h opts ii cd)),
        fst (dayset_bounds h opts ii cd) < snd (dayset_bounds h opts ii cd)
        \<and> isFiltered ii (snd (dayset_bounds h opts ii cd) - 1) opts)"
  unfolding loop_filtered_def Let_def dayset_bounds_def
  by (subst getdayset_filled) (simp add: removeFilteredDays_fill)

lemma loop_dates_plain:
  assumes "\<not> notEmpty (bysetpos opts)"
  shows "loop_dates h opts cd ii ts
           = Some (plain_dates opts ii ts (fst (dayset_bounds h opts ii cd))
                     (snd (dayset_bounds h opts ii cd)))"
  unfolding loop_dates_def Let_def loop_filtered_bounds
  by (simp add: assms period_dates_def present_days_kept plain_dates_def dayset_bounds_def)

lemma rebuild_monthinfo:
  "\<not> notEmpty (bynweekday options) \<Longrightarrow> monthinfo (rebuild h options y m ii) = monthinfo ii"
  by (simp add: rebuild_def Let_def)

lemma isFiltered_unfiltered:
  "unfiltered options \<Longrightarrow> monthinfo ii = None \<Longrightarrow> \<not> isFiltered ii d options"
  by (simp add: unfiltered_def isFiltered_def ii_nwdaymask_def Let_def)

lemma daily_bounds:
  "DAILY \<le> freq options \<Longrightarrow>
   dayset_bounds h options ii cd
     = (toOrdinal h (Date_UTC (year cd) (month cd - 1) (day cd) 0 0 0 0) - yearordinal (yearinfo ii),
        toOrdinal h (Date_UTC (year cd) (month cd - 1) (day cd) 0 0 0 0) - yearordinal (yearinfo ii) + 1)"
  by (simp add: dayset_bounds_def getdayset_def ddayset_def Let_def YEARLY_def MONTHLY_def
        WEEKLY_def DAILY_def)

lemma daily_dates:
  assumes "unfiltered options" and "DAILY \<le> freq options" and "monthinfo ii = None"
  shows "loop_dates h options cd ii ts
           = Some (map (combine (fromOrdinal
                      (toOrdinal h (Date_UTC (year cd) (month cd - 1) (day cd) 0 0 0 0)))) ts)"
proof -
  have s: "\<not> notEmpty (bysetpos options)" using assms(1) by (simp add: unfiltered_def)
  have f: "filter (\<lambda>i. \<not> isFiltered ii i options) [a..a + 1 - 1] = [a]" for a
    using isFiltered_unfiltered [OF assms(1,3)] by simp
  show ?thesis
    unfolding loop_dates_plain [OF s] daily_bounds [OF assms(2)] plain_dates_def fst_conv snd_conv f
    by simp
qed

lemma daily_filtered:
  assumes "unfiltered options" and "monthinfo ii = None"
  shows "snd (loop_filtered h options cd ii) = False"
  using isFiltered_unfiltered [OF assms] by (simp add: loop_filtered_bounds)

section \<open>The hours 12, 6, 18\<close>

lemma unsorted_hours_parsed: "parseOptions utc_host unsorted_hours_options = Inr unsorted_hours"
  by (simp add: unsorted_hours_options_def unsorted_hours_def opt_eval date_eval Let_def)

lemma unsorted_hours_sel:
  "freq unsorted_hours = 3" "dtstart unsorted_hours = 1704067200000"
  "interval unsorted_hours = 1" "count unsorted_hours = None"
  "until unsorted_hours = Some 1704110400000" "tzid unsorted_hours = None"
  "byhour unsorted_hours = Some [12, 6, 18]" "byminute unsorted_hours = Some [0]"
  "bysecond unsorted_hours = Some [0]" "bynweekday unsorted_hours = None"
  "byeaster unsorted_hours = None"
  by (simp_all add: unsorted_hours_def)

lemma unsorted_hours_unfiltered: "unfiltered unsorted_hours"
  by (simp add: unfiltered_def unsorted_hours_def notEmpty_def empty1_def)

lemma new_year_2024: "fromDate 1704067200000 = on_day 2024 1 1"
  by (simp add: on_day_def date_eval Let_def)

lemma unsorted_hours_timeset:
  "makeTimeset unsorted_hours cd = Some [at_hour 12, at_hour 6, at_hour 18]"
  by (simp add: makeTimeset_def buildTimeset_def unsorted_hours_sel freqIsDailyOrGreater_def
        HOURLY_def js_rem_def at_hour_def Let_def)

lemma new_year_2024_ordinal:
  "fromOrdinal (toOrdinal utc_host (Date_UTC 2024 (1 - 1) 1 0 0 0 0)) = 1704067200000"
  by (simp add: date_eval Let_def)

lemma new_year_2024_hours:
  "combine 1704067200000 (at_hour 12) = 1704110400000"
  "combine 1704067200000 (at_hour 6) = 1704088800000"
  "combine 1704067200000 (at_hour 18) = 1704132000000"
  by (simp_all add: at_hour_def date_eval Let_def)

lemma unsorted_hours_dates:
  assumes "monthinfo ii = None"
  shows "loop_dates utc_host unsorted_hours (on_day 2024 1 1) ii [at_hour 12, at_hour 6, at_hour 18]
           = Some [1704110400000, 1704088800000, 1704132000000]"
proof -
  have y: "year (on_day 2024 1 1) = 2024" "month (on_day 2024 1 1) = 1" "day (on_day 2024 1 1) = 1"
    by (simp_all add: on_day_def)
  show ?thesis
    unfolding daily_dates [OF unsorted_hours_unfiltered _ assms, unfolded unsorted_hours_sel DAILY_def, simplified]
      y new_year_2024_ordinal
    by (simp add: new_year_2024_hours)
qed

lemma unsorted_hours_all:
  "iter utc_host (Suc n) (new_IterResult QAll) unsorted_hours
     = Some (DateList [1704110400000, 1704088800000])"
proof -
  let ?ii = "rebuild utc_host unsorted_hours 2024 1 new_Iterinfo"
  have m: "monthinfo ?ii = None"
    by (simp add: rebuild_monthinfo unsorted_hours_sel notEmpty_def empty1_def new_Iterinfo_def)
  have e: "emit_dates (\<lambda>s date. Some (accept s date)) utc_host unsorted_hours
             [1704110400000, 1704088800000, 1704132000000] (new_IterResult QAll) None
           = Some (Stopped ((new_IterResult QAll)
                     \<lparr>total := 2, result := [1704110400000, 1704088800000]\<rparr>))"
    by (simp add: unsorted_hours_sel rezoneIfNeeded_def rezonedDate_def isUTC_def accept_def
          add_def new_IterResult_def Let_def)
  have "iter_loop (\<lambda>s date. Some (accept s date)) utc_host unsorted_hours (Suc n)
          (on_day 2024 1 1) ?ii [at_hour 12, at_hour 6, at_hour 18] (new_IterResult QAll) None
        = Some ((new_IterResult QAll)\<lparr>total := 2, result := [1704110400000, 1704088800000]\<rparr>)"
    by (subst iter_loop_unfold) (simp add: unsorted_hours_dates [OF m] e del: emit_dates.simps)
  then show ?thesis
    by (simp add: iter_def iter_run_def unsorted_hours_sel new_year_2024 unsorted_hours_timeset
          Let_def on_day_def getValue_def new_IterResult_def)
qed

lemma on_day_sel:
  "year (on_day y m d) = y" "month (on_day y m d) = m" "day (on_day y m d) = d"
  "hour (on_day y m d) = 0" "minute (on_day y m d) = 0" "second (on_day y m d) = 0"
  "millisecond (on_day y m d) = 0"
  by (simp_all add: on_day_def)

lemma on_day_upd:
  "(on_day y m d)\<lparr>day := d'\<rparr> = on_day y m d'"
  "(on_day y m d)\<lparr>month := m'\<rparr> = on_day y m' d"
  "(on_day y m d)\<lparr>year := y'\<rparr> = on_day y' m d"
  by (simp_all add: on_day_def)

section \<open>The count takes the first dates\<close>

lemma emit_dates_take:
  assumes "plain_all sA" and "plain_all sB" and "0 < k"
    and "emit_dates (\<lambda>s date. Some (accept s date)) h opts dates sA None = Some rA"
  shows "\<exists>more sA' sB'. plain_all sA' \<and> result sA' = result sA @ more
           \<and> plain_all sB' \<and> result sB' = result sB @ take (nat k) more
           \<and> ((rA = Running sA' None \<and>
                emit_dates (\<lambda>s date. Some (accept s date)) h opts dates sB (Some k)
                  = Some (if int (length more) < k then Running sB' (Some (k - int (length more)))
                          else Stopped sB'))
              \<or> (rA = Stopped sA' \<and>
                emit_dates (\<lambda>s date. Some (accept s date)) h opts dates sB (Some k)
                  = Some (Stopped sB')))"
  using assms
proof (induction dates arbitrary: sA sB k)
  case Nil
  show ?case
    apply (rule exI [of _ "[]"], rule exI [of _ sA], rule exI [of _ sB])
    using Nil by auto
next
  case (Cons res rest)
  show ?case
  proof (cases "case until opts of None \<Rightarrow> False | Some u \<Rightarrow> res > u")
    case True
    then have "rA = Stopped sA" using Cons.prems(4) by simp
    show ?thesis
      apply (rule exI [of _ "[]"], rule exI [of _ sA], rule exI [of _ sB])
      using \<open>rA = Stopped sA\<close> True Cons.prems(1,2) by simp
  next
    case False
    note nu = this
    show ?thesis
    proof (cases "res \<ge> dtstart opts")
      case False
      then have "emit_dates (\<lambda>s date. Some (accept s date)) h opts rest sA None = Some rA"
        using Cons.prems(4) nu by simp
      from Cons.IH [OF Cons.prems(1,2,3) this] False nu show ?thesis by simp
    next
      case True
      define z where "z = rezoneIfNeeded h res opts"
      define sA1 where "sA1 = snd (accept sA z)"
      define sB1 where "sB1 = snd (accept sB z)"
      have a1: "accept sA z = (True, sA1)" and pA1: "plain_all sA1"
        and rA1: "result sA1 = result sA @ [z]"
        using Cons.prems(1) by (simp_all add: sA1_def accept_plain plain_all_def)
      have b1: "accept sB z = (True, sB1)" and pB1: "plain_all sB1"
        and rB1: "result sB1 = result sB @ [z]"
        using Cons.prems(2) by (simp_all add: sB1_def accept_plain plain_all_def)
      have rest: "emit_dates (\<lambda>s date. Some (accept s date)) h opts rest sA1 None = Some rA"
        using Cons.prems(4) nu True a1 by (simp add: z_def)
      show ?thesis
      proof (cases "k = 1")
        case True
        have eB: "emit_dates (\<lambda>s date. Some (accept s date)) h opts (res # rest) sB (Some k)
                    = Some (Stopped sB1)"
          using True nu \<open>res \<ge> dtstart opts\<close> b1 by (simp add: z_def)
        from Cons.IH [OF pA1 pB1 Cons.prems(3) rest]
        obtain more sA' where m: "plain_all sA'" "result sA' = result sA1 @ more"
          "rA = Running sA' None \<or> rA = Stopped sA'"
          by blast
        show ?thesis
          unfolding eB
          apply (rule exI [of _ "z # more"], rule exI [of _ sA'], rule exI [of _ sB1])
          using m True pB1 rB1 rA1 by auto
      next
        case False
        with Cons.prems(3) have k1: "0 < k - 1" by simp
        have eB: "emit_dates (\<lambda>s date. Some (accept s date)) h opts (res # rest) sB (Some k)
                    = emit_dates (\<lambda>s date. Some (accept s date)) h opts rest sB1 (Some (k - 1))"
          using False Cons.prems(3) nu \<open>res \<ge> dtstart opts\<close> b1 by (simp add: z_def)
        from Cons.IH [OF pA1 pB1 k1 rest]
        obtain more sA' sB' where m: "plain_all sA'" "result sA' = result sA1 @ more"
          "plain_all sB'" "result sB' = result sB1 @ take (nat (k - 1)) more"
          "(rA = Running sA' None \<and>
                emit_dates (\<lambda>s date. Some (accept s date)) h opts rest sB1 (Some (k - 1))
                  = Some (if int (length more) < k - 1
                          then Running sB' (Some (k - 1 - int (length more)))
                          else Stopped sB'))
              \<or> (rA = Stopped sA' \<and>
                emit_dates (\<lambda>s date. Some (accept s date)) h opts rest sB1 (Some (k - 1))
                  = Some (Stopped sB'))"
          by blast
        have t: "take (nat k) (z # more) = z # take (nat (k - 1)) more"
          using Cons.prems(3) by (simp add: take_Cons' nat_diff_distrib)
        show ?thesis
          unfolding eB
          apply (rule exI [of _ "z # more"], rule exI [of _ sA'], rule exI [of _ sB'])
          using m rA1 rB1 by (auto simp: t)
      qed
    qed
  qed
qed

lemma iter_loop_take:
  assumes "plain_all sA" and "plain_all sB" and "0 < k"
    and "iter_loop (\<lambda>s date. Some (accept s date)) h opts fuel cd ii ts sA None = Some sA'"
  shows "\<exists>more sB'. result sA' = result sA @ more \<and> plain_all sB'
           \<and> result sB' = result sB @ take (nat k) more
           \<and> iter_loop (\<lambda>s date. Some (accept s date)) h opts fuel cd ii ts sB (Some k) = Some sB'"
  using assms
proof (induction fuel arbitrary: cd ii ts sA sB k)
  case 0
  then show ?case by (simp add: iter_loop_unfold)
next
  case (Suc n)
  from Suc.prems(4) obtain dates where d: "loop_dates h opts cd ii ts = Some dates"
    by (subst (asm) iter_loop_unfold) (auto split: option.splits)
  from Suc.prems(4) d obtain rA
    where e: "emit_dates (\<lambda>s date. Some (accept s date)) h opts dates sA None = Some rA"
    by (subst (asm) iter_loop_unfold) (auto split: option.splits)
  from emit_dates_take [OF Suc.prems(1,2,3) e]
  obtain more sA1 sB1 where m: "plain_all sA1" "result sA1 = result sA @ more"
      "plain_all sB1" "result sB1 = result sB @ take (nat k) more"
    and alt: "(rA = Running sA1 None \<and>
                emit_dates (\<lambda>s date. Some (accept s date)) h opts dates sB (Some k)
                  = Some (if int (length more) < k then Running sB1 (Some (k - int (length more)))
                          else Stopped sB1))
              \<or> (rA = Stopped sA1 \<and>
                emit_dates (\<lambda>s date. Some (accept s date)) h opts dates sB (Some k)
                  = Some (Stopped sB1))"
    by blast
  from alt show ?case
  proof
    assume st: "rA = Stopped sA1 \<and>
                emit_dates (\<lambda>s date. Some (accept s date)) h opts dates sB (Some k)
                  = Some (Stopped sB1)"
    then have "sA' = sA1"
      and "iter_loop (\<lambda>s date. Some (accept s date)) h opts (Suc n) cd ii ts sB (Some k) = Some sB1"
      using Suc.prems(4) d e by (simp_all add: iter_loop_unfold [of _ _ _ "Suc n"])
    with m show ?thesis by blast
  next
    assume run: "rA = Running sA1 None \<and>
                emit_dates (\<lambda>s date. Some (accept s date)) h opts dates sB (Some k)
                  = Some (if int (length more) < k then Running sB1 (Some (k - int (length more)))
                          else Stopped sB1)"
    then have rA: "rA = Running sA1 None" by simp
    show ?thesis
    proof (cases "loop_next h opts (Suc n) cd ii ts")
      case Finished
      then have "sA' = sA1"
        and "iter_loop (\<lambda>s date. Some (accept s date)) h opts (Suc n) cd ii ts sB (Some k) = Some sB1"
        using Suc.prems(4) d e run by (simp_all add: iter_loop_unfold [of _ _ _ "Suc n"])
      with m show ?thesis by blast
    next
      case Failed
      then show ?thesis
        using Suc.prems(4) d e rA by (simp add: iter_loop_unfold [of _ _ _ "Suc n"])
    next
      case (Next cd' ii' ts')
      then have rec: "iter_loop (\<lambda>s date. Some (accept s date)) h opts n cd' ii' ts' sA1 None = Some sA'"
        using Suc.prems(4) d e rA by (simp add: iter_loop_unfold [of _ _ _ "Suc n"])
      show ?thesis
      proof (cases "int (length more) < k")
        case True
        then have k': "0 < k - int (length more)" by simp
        from Suc.IH [OF m(1) m(3) k' rec]
        obtain more2 sB' where m2: "result sA' = result sA1 @ more2" "plain_all sB'"
          "result sB' = result sB1 @ take (nat (k - int (length more))) more2"
          "iter_loop (\<lambda>s date. Some (accept s date)) h opts n cd' ii' ts' sB1
             (Some (k - int (length more))) = Some sB'"
          by blast
        have "iter_loop (\<lambda>s date. Some (accept s date)) h opts (Suc n) cd ii ts sB (Some k) = Some sB'"
          using d run True Next m2(4) by (simp add: iter_loop_unfold [of _ _ _ "Suc n"])
        moreover have "take (nat k) (more @ more2)
                         = take (nat k) more @ take (nat (k - int (length more))) more2"
          using True by (simp add: nat_diff_distrib)
        ultimately show ?thesis
          using m m2 by (intro exI [of _ "more @ more2"] exI [of _ sB']) simp
      next
        case False
        from iter_loop_sim [OF m(1) rec, of sA1]
        obtain more2 where m2: "result sA' = result sA1 @ more2" by blast
        have "iter_loop (\<lambda>s date. Some (accept s date)) h opts (Suc n) cd ii ts sB (Some k) = Some sB1"
          using d run False by (simp add: iter_loop_unfold [of _ _ _ "Suc n"])
        moreover have "take (nat k) (more @ more2) = take (nat k) more"
          using False by simp
        ultimately show ?thesis
          using m m2 by (intro exI [of _ "more @ more2"] exI [of _ sB1]) simp
      qed
    qed
  qed
qed

lemma emit_dates_skip:
  assumes "res < dtstart opts" and "\<not> (case until opts of None \<Rightarrow> False | Some u \<Rightarrow> res > u)"
  shows "emit_dates acc h opts (res # rest) s cnt = emit_dates acc h opts rest s cnt"
  using assms by simp

lemma iter_count_take:
  assumes "count opts = None" and "0 < N"
    and "iter h fuel (new_IterResult QAll) opts = Some (DateList ys)"
  shows "iter h fuel (new_IterResult QAll) (opts\<lparr>count := Some N\<rparr>)
           = Some (DateList (take (nat N) ys))"
proof -
  have p: "plain_all (new_IterResult QAll)"
    by (simp add: plain_all_def new_IterResult_def)
  obtain sA' where run: "iter_run (\<lambda>s date. Some (accept s date)) h fuel (new_IterResult QAll) opts = Some sA'"
    and v: "getValue sA' = DateList ys"
    using assms(3) by (auto simp: iter_def)
  show ?thesis
  proof (cases "interval opts = 0")
    case True
    then have "sA' = new_IterResult QAll" using run by (simp add: iter_run_def)
    then have "ys = []" using v by (simp add: getValue_def new_IterResult_def)
    with True show ?thesis by (simp add: iter_def iter_run_def getValue_def new_IterResult_def)
  next
    case False
    define cd where "cd = fromDate (dtstart opts)"
    define ii where "ii = rebuild h opts (year cd) (month cd) new_Iterinfo"
    from run False assms(1) obtain ts where ts: "makeTimeset opts cd = Some ts"
      and loop: "iter_loop (\<lambda>s date. Some (accept s date)) h opts fuel cd ii ts
                   (new_IterResult QAll) None = Some sA'"
      by (auto simp: iter_run_def Let_def cd_def ii_def split: option.splits)
    from iter_loop_take [OF p p assms(2) loop]
    obtain more sB' where m: "result sA' = result (new_IterResult QAll) @ more" "plain_all sB'"
      "result sB' = result (new_IterResult QAll) @ take (nat N) more"
      "iter_loop (\<lambda>s date. Some (accept s date)) h opts fuel cd ii ts (new_IterResult QAll) (Some N)
         = Some sB'"
      by blast
    from iter_loop_sim [OF p loop, of sA'] have pA: "plain_all sA'" by blast
    have "more = ys"
      using m(1) pA v by (simp add: getValue_def plain_all_def new_IterResult_def)
    then show ?thesis
      using False assms(2) ts m(2,3,4)
      by (simp add: iter_def iter_run_def Let_def cd_def ii_def iter_loop_count_indep
            getValue_def plain_all_def new_IterResult_def)
  qed
qed

lemma emit_dates_bound:
  assumes "plain_all sA" and "0 < k"
    and "emit_dates (\<lambda>s date. Some (accept s date)) h opts dates sA (Some k) = Some rA"
  shows "(\<exists>s' k'. rA = Running s' (Some k') \<and> 0 < k' \<and> plain_all s'
            \<and> int (length (result s')) + k' = int (length (result sA)) + k)
         \<or> (\<exists>s'. rA = Stopped s' \<and> plain_all s'
            \<and> int (length (result s')) \<le> int (length (result sA)) + k)"
  using assms
proof (induction dates arbitrary: sA k)
  case Nil
  then show ?case by auto
next
  case (Cons res rest)
  show ?case
  proof (cases "case until opts of None \<Rightarrow> False | Some u \<Rightarrow> res > u")
    case True
    then have "rA = Stopped sA" using Cons.prems(3) by simp
    with Cons.prems(1,2) show ?thesis by simp
  next
    case False
    note nu = this
    show ?thesis
    proof (cases "res \<ge> dtstart opts")
      case False
      then have "emit_dates (\<lambda>s date. Some (accept s date)) h opts rest sA (Some k) = Some rA"
        using Cons.prems(3) nu by simp
      from Cons.IH [OF Cons.prems(1,2) this] show ?thesis .
    next
      case True
      define z where "z = rezoneIfNeeded h res opts"
      define sA1 where "sA1 = snd (accept sA z)"
      have a1: "accept sA z = (True, sA1)" and p1: "plain_all sA1"
        and r1: "result sA1 = result sA @ [z]"
        using Cons.prems(1) by (simp_all add: sA1_def accept_plain plain_all_def)
      show ?thesis
      proof (cases "k = 1")
        case True
        then have "rA = Stopped sA1"
          using Cons.prems(3) nu \<open>res \<ge> dtstart opts\<close> a1 by (simp add: z_def)
        with p1 r1 True show ?thesis by simp
      next
        case False
        with Cons.prems(2) have k1: "0 < k - 1" by simp
        have "emit_dates (\<lambda>s date. Some (accept s date)) h opts rest sA1 (Some (k - 1)) = Some rA"
          using False Cons.prems(2,3) nu \<open>res \<ge> dtstart opts\<close> a1 by (simp add: z_def)
        from Cons.IH [OF p1 k1 this] show ?thesis by (simp add: r1)
      qed
    qed
  qed
qed

lemma iter_loop_bound:
  assumes "plain_all sA" and "0 < k"
    and "iter_loop (\<lambda>s date. Some (accept s date)) h opts fuel cd ii ts sA (Some k) = Some sA'"
  shows "int (length (result sA')) \<le> int (length (result sA)) + k"
  using assms
proof (induction fuel arbitrary: cd ii ts sA k)
  case 0
  then show ?case by (simp add: iter_loop_unfold)
next
  case (Suc n)
  from Suc.prems(3) obtain dates where d: "loop_dates h opts cd ii ts = Some dates"
    by (subst (asm) iter_loop_unfold) (auto split: option.splits)
  from Suc.prems(3) d obtain rA
    where e: "emit_dates (\<lambda>s date. Some (accept s date)) h opts dates sA (Some k) = Some rA"
    by (subst (asm) iter_loop_unfold) (auto split: option.splits)
  from emit_dates_bound [OF Suc.prems(1,2) e] show ?case
  proof
    assume "\<exists>s'. rA = Stopped s' \<and> plain_all s'
              \<and> int (length (result s')) \<le> int (length (result sA)) + k"
    then obtain s' where s: "rA = Stopped s'"
      "int (length (result s')) \<le> int (length (result sA)) + k"
      by blast
    then have "sA' = s'"
      using Suc.prems(3) d e by (simp add: iter_loop_unfold [of _ _ _ "Suc n"])
    with s show ?thesis by simp
  next
    assume "\<exists>s' k'. rA = Running s' (Some k') \<and> 0 < k' \<and> plain_all s'
              \<and> int (length (result s')) + k' = int (length (result sA)) + k"
    then obtain s' k' where s: "rA = Running s' (Some k')" "0 < k'" "plain_all s'"
      "int (length (result s')) + k' = int (length (result sA)) + k"
      by blast
    show ?thesis
    proof (cases "loop_next h opts (Suc n) cd ii ts")
      case Finished
      then have "sA' = s'"
        using Suc.prems(3) d e s(1) by (simp add: iter_loop_unfold [of _ _ _ "Suc n"])
      with s show ?thesis by simp
    next
      case Failed
      then show ?thesis
        using Suc.prems(3) d e s(1) by (simp add: iter_loop_unfold [of _ _ _ "Suc n"])
    next
      case (Next cd' ii' ts')
      then have "iter_loop (\<lambda>s date. Some (accept s date)) h opts n cd' ii' ts' s' (Some k')
                   = Some sA'"
        using Suc.prems(3) d e s(1) by (simp add: iter_loop_unfold [of _ _ _ "Suc n"])
      from Suc.IH [OF s(3) s(2) this] s(4) show ?thesis by simp
    qed
  qed
qed

lemma iter_count_bound:
  assumes "count opts = Some N" and "0 < N"
    and "iter h fuel (new_IterResult QAll) opts = Some (DateList ys)"
  shows "int (length ys) \<le> N"
proof -
  have p: "plain_all (new_IterResult QAll)"
    by (simp add: plain_all_def new_IterResult_def)
  obtain sA' where run: "iter_run (\<lambda>s date. Some (accept s date)) h fuel (new_IterResult QAll) opts
                           = Some sA'"
    and v: "getValue sA' = DateList ys"
    using assms(3) by (auto simp: iter_def)
  show ?thesis
  proof (cases "interval opts = 0")
    case True
    then have "sA' = new_IterResult QAll" using run by (simp add: iter_run_def)
    then have "ys = []" using v by (simp add: getValue_def new_IterResult_def)
    with assms(2) show ?thesis by simp
  next
    case False
    define cd where "cd = fromDate (dtstart opts)"
    define ii where "ii = rebuild h opts (year cd) (month cd) new_Iterinfo"
    from run False assms(1,2) obtain ts where
      loop: "iter_loop (\<lambda>s date. Some (accept s date)) h opts fuel cd ii ts
               (new_IterResult QAll) (Some N) = Some sA'"
      by (auto simp: iter_run_def Let_def cd_def ii_def split: option.splits)
    from iter_loop_sim [OF p loop, of sA'] have pA: "plain_all sA'" by blast
    from iter_loop_bound [OF p assms(2) loop]
    have "int (length (result sA')) \<le> N" by (simp add: new_IterResult_def)
    moreover have "result sA' = ys"
      using pA v by (simp add: getValue_def plain_all_def)
    ultimately show ?thesis by simp
  qed
qed

section \<open>The rule that starts on the last day of the year 9999\<close>

lemma last_day_parsed: "parseOptions utc_host last_day_options = Inr last_day"
  by (simp add: last_day_options_def last_day_def opt_eval date_eval Let_def)

lemma last_day_sel:
  "freq last_day = 3" "dtstart last_day = 253402214400000"
  "interval last_day = 1" "count last_day = Some 2"
  "until last_day = None" "tzid last_day = None"
  "byhour last_day = Some [0]" "byminute last_day = Some [0]"
  "bysecond last_day = Some [0]" "bynweekday last_day = None"
  "byeaster last_day = None"
  by (simp_all add: last_day_def)

lemma last_day_unfiltered: "unfiltered last_day"
  by (simp add: unfiltered_def last_day_def notEmpty_def empty1_def)

lemma last_day_start: "fromDate 253402214400000 = on_day 9999 12 31"
  by (simp add: on_day_def date_eval Let_def)

lemma last_day_timeset: "makeTimeset last_day cd = Some [at_hour 0]"
  by (simp add: makeTimeset_def buildTimeset_def last_day_sel freqIsDailyOrGreater_def
        HOURLY_def js_rem_def at_hour_def Let_def)

lemma last_day_ordinal:
  "fromOrdinal (toOrdinal utc_host (Date_UTC 9999 (12 - 1) 31 0 0 0 0)) = 253402214400000"
  by (simp add: date_eval Let_def)

lemma last_day_midnight: "combine 253402214400000 (at_hour 0) = 253402214400000"
  by (simp add: at_hour_def date_eval Let_def)

lemma last_day_dates:
  assumes "monthinfo ii = None"
  shows "loop_dates utc_host last_day (on_day 9999 12 31) ii [at_hour 0] = Some [253402214400000]"
proof -
  show ?thesis
    unfolding daily_dates [OF last_day_unfiltered _ assms, unfolded last_day_sel DAILY_def, simplified]
      on_day_sel last_day_ordinal
    by (simp add: last_day_midnight)
qed

lemma december_9999_first: "Date_UTC 9999 11 1 0 0 0 0 = 253399622400000"
  by (simp add: date_eval Let_def)

lemma december_9999_month: "MonthFromTime 253399622400000 = 11"
  by (simp add: date_eval Let_def)

lemma december_9999_days: "getMonthDays 253399622400000 = 31"
  unfolding getMonthDays_def Let_def december_9999_month by (simp add: MONTH_DAYS_def)

lemma december_9999: "daysinmonth (on_day 9999 12 d) = 31"
  by (simp add: daysinmonth_def on_day_sel monthRange_def Let_def december_9999_first
        december_9999_days)

lemma last_day_step: "addDaily 1 (on_day 9999 12 31) = on_day 10000 1 1"
proof -
  have "fixDay_loop (on_day 9999 12 32) = on_day 10000 1 1"
    by (subst fixDay_loop.simps)
       (simp add: december_9999 MAXYEAR_def Let_def on_day_sel on_day_upd)
  then show ?thesis
    by (simp add: addDaily_def fixDay_def december_9999 on_day_sel on_day_upd)
qed

lemma last_day_next:
  assumes "monthinfo ii = None"
  shows "loop_next utc_host last_day fuel (on_day 9999 12 31) ii ts = Finished"
  by (simp add: loop_next_def last_day_sel daily_filtered [OF last_day_unfiltered assms]
        DateTime_add_def YEARLY_def MONTHLY_def WEEKLY_def DAILY_def last_day_step Let_def
        on_day_sel MAXYEAR_def)

lemma last_day_all:
  "iter utc_host (Suc n) (new_IterResult QAll) last_day = Some (DateList [253402214400000])"
proof -
  let ?ii = "rebuild utc_host last_day 9999 12 new_Iterinfo"
  have m: "monthinfo ?ii = None"
    by (simp add: rebuild_monthinfo last_day_sel notEmpty_def empty1_def new_Iterinfo_def)
  have e: "emit_dates (\<lambda>s date. Some (accept s date)) utc_host last_day
             [253402214400000] (new_IterResult QAll) (Some 2)
           = Some (Running ((new_IterResult QAll)\<lparr>total := 1, result := [253402214400000]\<rparr>)
                     (Some 1))"
    by (simp add: last_day_sel rezoneIfNeeded_def rezonedDate_def isUTC_def accept_def
          add_def new_IterResult_def Let_def)
  have "iter_loop (\<lambda>s date. Some (accept s date)) utc_host last_day (Suc n)
          (on_day 9999 12 31) ?ii [at_hour 0] (new_IterResult QAll) (Some 2)
        = Some ((new_IterResult QAll)\<lparr>total := 1, result := [253402214400000]\<rparr>)"
    by (subst iter_loop_unfold)
       (simp add: last_day_dates [OF m] e last_day_next [OF m] del: emit_dates.simps)
  then show ?thesis
    by (simp add: iter_def iter_run_def last_day_sel last_day_start last_day_timeset
          Let_def on_day_sel getValue_def new_IterResult_def)
qed

section \<open>Rules with a count\<close>

text \<open>
  C2. A rule with \<open>count\<close> = N, N positive, returns from \<open>all()\<close> at most N dates:
  the first N of the dates that the same rule without a count returns, and all of them
  when they are fewer than N (the iteration also ends at \<open>until\<close> and past the year
  9999, so N dates need not be reached). A candidate below the start that is not past
  \<open>until\<close> is skipped: the sink does not see it and the count that is left stays as
  it is.
\<close>

theorem count_takes_first:
  assumes "0 < N"
  shows "(count opts = None \<and> iter h fuel (new_IterResult QAll) opts = Some (DateList ys) \<longrightarrow>
            iter h fuel (new_IterResult QAll) (opts\<lparr>count := Some N\<rparr>)
              = Some (DateList (take (nat N) ys)))
         \<and> (iter h fuel (new_IterResult QAll) (opts\<lparr>count := Some N\<rparr>) = Some (DateList zs) \<longrightarrow>
              int (length zs) \<le> N)
         \<and> (\<forall>res rest s cnt. res < dtstart opts \<longrightarrow>
               \<not> (case until opts of None \<Rightarrow> False | Some u \<Rightarrow> res > u) \<longrightarrow>
               emit_dates (\<lambda>s date. Some (accept s date)) h (opts\<lparr>count := Some N\<rparr>)
                   (res # rest) s cnt
                 = emit_dates (\<lambda>s date. Some (accept s date)) h (opts\<lparr>count := Some N\<rparr>)
                     rest s cnt)"
  using iter_count_take [of opts N h fuel ys, OF _ assms]
    iter_count_bound [of "opts\<lparr>count := Some N\<rparr>" N h fuel zs, OF _ assms]
  by simp

theorem count_takes_first_witness:
  "iter utc_host 1 (new_IterResult QAll) (unsorted_hours\<lparr>count := Some 1\<rparr>)
     = Some (DateList [1704110400000])
   \<and> emit_dates (\<lambda>s date. Some (accept s date)) utc_host (unsorted_hours\<lparr>count := Some 1\<rparr>)
         [1704067199999, 1704110400000] (new_IterResult QAll) (Some 1)
       = emit_dates (\<lambda>s date. Some (accept s date)) utc_host (unsorted_hours\<lparr>count := Some 1\<rparr>)
           [1704110400000] (new_IterResult QAll) (Some 1)"
  using count_takes_first [where N = 1 and opts = unsorted_hours and h = utc_host and fuel = 1
      and ys = "[1704110400000, 1704088800000]" and zs = "[1704110400000]"]
    unsorted_hours_all [of 0]
  by (simp add: unsorted_hours_sel)

text \<open>Every day from 9999-12-31 with \<open>count\<close> 2: one date is returned, since the
  next day lies past the year 9999.\<close>

theorem count_not_reached:
  "count last_day = Some 2
   \<and> iter utc_host 2 (new_IterResult QAll) last_day = Some (DateList [253402214400000])"
  using last_day_all [of 1] by (simp add: last_day_sel numeral_2_eq_2)

section \<open>The first date after a bound, and the first dates of a rule\<close>

lemma fresh_query:
  assumes "r_cache r = Some new_Cache \<or> r_cache r = None"
  shows "map_option fst (cached_query h fuel q None r) = iter h fuel (new_IterResult q) (r_options r)"
proof -
  have "fst (cacheGet q new_Cache) = None" "snd (cacheGet q new_Cache) = new_Cache"
    by (cases q; simp add: cacheGet_def new_Cache_def cached_list_def Let_def)+
  then show ?thesis
    using assms
    by (auto simp: cached_query_def RRule_cacheGet_def RRule_cacheAdd_def option.map_comp comp_def
          option.map_ident split: option.splits prod.splits)
qed

lemma feed_after:
  assumes "query ir = QAfter x inc" and "iterator ir = None"
    and "minDate ir = Some (if inc then x else x + 1)" and "result ir = []"
  shows "getValue (feed ir xs)
           = DateOrNull (find (\<lambda>d. (if inc then x else x + 1) \<le> d) xs)"
  using assms
proof (induction xs arbitrary: ir)
  case Nil
  then show ?case by (simp add: getValue_def)
next
  case (Cons d ds)
  show ?case
  proof (cases "(if inc then x else x + 1) \<le> d")
    case True
    then show ?thesis
      using Cons.prems by (simp add: accept_def add_def Let_def getValue_def)
  next
    case False
    then have a: "accept ir d = (True, ir\<lparr>total := total ir + 1\<rparr>)"
      using Cons.prems by (simp add: accept_def Let_def)
    from Cons.IH [of "ir\<lparr>total := total ir + 1\<rparr>"] Cons.prems False a
    show ?thesis by simp
  qed
qed

lemma after_find:
  assumes "iter h fuel (new_IterResult QAll) (r_options r) = Some (DateList xs)"
    and "r_cache r = Some new_Cache \<or> r_cache r = None"
  shows "map_option (map_sum id fst) (RRule_after h fuel (ValidDate x) inc r)
           = Some (Inr (DateOrNull (find (\<lambda>d. (if inc then x else x + 1) \<le> d) xs)))"
proof -
  have "iter h fuel (new_IterResult (QAfter x inc)) (r_options r)
          = Some (DateOrNull (find (\<lambda>d. (if inc then x else x + 1) \<le> d) xs))"
    unfolding iter_sim [OF assms(1)]
    by (simp add: feed_after new_IterResult_def)
  with fresh_query [OF assms(2), of h fuel "QAfter x inc"] show ?thesis
    by (cases "cached_query h fuel (QAfter x inc) None r") (auto simp: RRule_after_def)
qed

text \<open>
  C3. On a rule with a fresh cache or none, whose iteration for \<open>all()\<close> ends and
  yields the dates \<open>xs\<close> in the order of the iterator, \<open>after(x, inc)\<close> returns the
  first date of \<open>xs\<close> that is at or after \<open>x\<close> (after \<open>x\<close> when \<open>inc\<close> is false),
  and \<open>null\<close> when there is none. This is the earliest such date when the iterator
  yields the dates in ascending order, which it does not when \<open>byhour\<close>, \<open>byminute\<close>
  or \<open>bysecond\<close> is given out of order: \<open>buildTimeset\<close> does not sort the times.
\<close>

theorem after_first_emitted:
  assumes "iter h fuel (new_IterResult QAll) (r_options r) = Some (DateList xs)"
    and "r_cache r = Some new_Cache \<or> r_cache r = None"
  shows "map_option (map_sum id fst) (RRule_after h fuel (ValidDate x) inc r)
           = Some (Inr (DateOrNull (find (\<lambda>d. (if inc then x else x + 1) \<le> d) xs)))"
  using assms by (rule after_find)

theorem after_first_emitted_witness:
  "map_option (map_sum id fst)
     (RRule_after utc_host 1 (ValidDate 1704088800000) False unsorted_hours_rule)
     = Some (Inr (DateOrNull (Some 1704110400000)))"
  using after_first_emitted [of utc_host 1 unsorted_hours_rule
      "[1704110400000, 1704088800000]" 1704088800000 False] unsorted_hours_all [of 0]
  by (simp add: unsorted_hours_rule_def)

text \<open>The rule of the hours 12, 6, 18: \<open>after\<close> of the start, inclusive, returns the
  date at 12:00, and the date at 06:00 of that day is a date of the rule.\<close>

theorem after_returns_later_date:
  "map_option (map_sum id fst)
     (RRule_after utc_host 1 (ValidDate 1704067200000) True unsorted_hours_rule)
     = Some (Inr (DateOrNull (Some 1704110400000)))
   \<and> map_option fst (RRule_all utc_host 1 None unsorted_hours_rule)
       = Some (DateList [1704110400000, 1704088800000])"
  using after_find [of utc_host 1 unsorted_hours_rule
      "[1704110400000, 1704088800000]" 1704067200000 True]
    fresh_query [of unsorted_hours_rule utc_host 1 QAll] unsorted_hours_all [of 0]
  by (simp add: unsorted_hours_rule_def RRule_all_def)

lemma feed_callback:
  assumes "method_of (query ir) = All" and "iterator ir = Some (\<lambda>_ len. int len < n)"
  shows "result (feed ir xs) = result ir @ take (nat n - length (result ir)) xs
         \<and> method_of (query (feed ir xs)) = All"
  using assms
proof (induction xs arbitrary: ir)
  case Nil
  then show ?case by simp
next
  case (Cons d ds)
  show ?case
  proof (cases "int (length (result ir)) < n")
    case True
    then have a: "accept ir d = (True, ir\<lparr>total := total ir + 1, result := result ir @ [d]\<rparr>)"
      using Cons.prems by (simp add: accept_def add_def Let_def)
    have l: "nat n - length (result ir) = Suc (nat n - Suc (length (result ir)))"
      using True by linarith
    from Cons.IH [of "ir\<lparr>total := total ir + 1, result := result ir @ [d]\<rparr>"] Cons.prems a
    show ?thesis by (simp add: l)
  next
    case False
    then have a: "accept ir d = (False, ir\<lparr>total := total ir + 1\<rparr>)"
      using Cons.prems by (simp add: accept_def add_def Let_def)
    have "nat n - length (result ir) = 0" using False by linarith
    with a Cons.prems show ?thesis by simp
  qed
qed

lemma next_take:
  assumes "iter h fuel (new_IterResult QAll) (r_options r) = Some (DateList xs)"
  shows "map_option fst (RepeatAdapter_next h fuel n r) = Some (DateList (take (nat n) xs))"
proof -
  let ?ir = "new_CallbackIterResult QAll (\<lambda>_ len. int len < n)"
  have q: "method_of (query ?ir) = All" "iterator ?ir = Some (\<lambda>_ len. int len < n)"
    "result ?ir = []"
    by (simp_all add: new_CallbackIterResult_def new_IterResult_def)
  from feed_callback [OF q(1,2), of xs] q(3)
  have "getValue (feed ?ir xs) = DateList (take (nat n) xs)"
    by (simp add: getValue_def)
  then show ?thesis
    unfolding RepeatAdapter_next_def RRule_all_def cached_query_def
    by (simp add: iter_sim [OF assms] option.map_comp comp_def)
qed

text \<open>
  C9. On a rule whose iteration for \<open>all()\<close> ends and yields the dates \<open>xs\<close> in the
  order of the iterator, \<open>next(n)\<close> returns the first \<open>n\<close> dates of \<open>xs\<close>, and all of
  them when they are fewer (none for \<open>n\<close> not positive). They are in ascending order
  when the iterator yields ascending dates, which it does not for times given out of
  order.
\<close>

theorem next_takes_emitted:
  assumes "iter h fuel (new_IterResult QAll) (r_options r) = Some (DateList xs)"
  shows "map_option fst (RepeatAdapter_next h fuel n r) = Some (DateList (take (nat n) xs))"
  using assms by (rule next_take)

theorem next_takes_emitted_witness:
  "map_option fst (RepeatAdapter_next utc_host 1 2 unsorted_hours_rule)
     = Some (DateList [1704110400000, 1704088800000])"
  using next_takes_emitted [of utc_host 1 unsorted_hours_rule
      "[1704110400000, 1704088800000]" 2] unsorted_hours_all [of 0]
  by (simp add: unsorted_hours_rule_def)

text \<open>The rule of the hours 12, 6, 18: \<open>next(1)\<close> returns the date at 12:00, and the
  date at 06:00 of that day is a date of the rule.\<close>

theorem next_returns_later_date:
  "map_option fst (RepeatAdapter_next utc_host 1 1 unsorted_hours_rule)
     = Some (DateList [1704110400000])
   \<and> map_option fst (RRule_all utc_host 1 None unsorted_hours_rule)
       = Some (DateList [1704110400000, 1704088800000])"
  using next_take [of utc_host 1 unsorted_hours_rule "[1704110400000, 1704088800000]" 1]
    fresh_query [of unsorted_hours_rule utc_host 1 QAll] unsorted_hours_all [of 0]
  by (simp add: unsorted_hours_rule_def RRule_all_def)

section \<open>Queries answered from the cached list of all dates\<close>

text \<open>
  C4. When the cache holds the list \<open>xs\<close> that the iteration for \<open>all()\<close> returns, a
  \<open>before\<close>, \<open>after\<close> or \<open>between\<close> query for which the cache holds no answer
  (none, or \<open>null\<close>) is answered by \<open>_cacheGet\<close> from \<open>xs\<close>, and the answer is the
  one the iterator gives when run with the \<open>IterResult\<close> of the query.
\<close>

theorem cached_filter_direct:
  assumes "iter h fuel (new_IterResult QAll) opts = Some (DateList xs)"
    and "all c = Some xs" and "method_of q \<noteq> All"
    and "is_falsy (case filter (\<lambda>item. \<not> findCacheDiff q (fst item)) (cached_list c q) of
                     [] \<Rightarrow> None
                   | item # _ \<Rightarrow> Some (snd item))"
  shows "fst (cacheGet q c) = iter h fuel (new_IterResult q) opts"
  using iter_sim [OF assms(1), of "new_IterResult q"] assms(2-4)
  by (simp add: cacheGet_def Let_def)

theorem cached_filter_direct_witness:
  "fst (cacheGet (QBetween 1704067200000 1704100000000 True)
          (new_Cache\<lparr>all := Some [1704110400000, 1704088800000]\<rparr>))
     = iter utc_host 1 (new_IterResult (QBetween 1704067200000 1704100000000 True)) unsorted_hours"
  using cached_filter_direct [of utc_host 1 unsorted_hours "[1704110400000, 1704088800000]"
      "new_Cache\<lparr>all := Some [1704110400000, 1704088800000]\<rparr>"
      "QBetween 1704067200000 1704100000000 True"]
    unsorted_hours_all [of 0]
  by (simp add: new_Cache_def cached_list_def is_falsy_def)

section \<open>The monthly rule on the 31st\<close>






















lemma emit_none: "emit_dates acc h options [] s cnt = Some (Running s cnt)"
  by simp


lemma plain_all_push: "plain_all s \<Longrightarrow> plain_all (s\<lparr>total := t, result := r\<rparr>)"
  by (simp add: plain_all_def)


section \<open>The advance of the clock\<close>


















section \<open>A sink that always asks for more\<close>




section \<open>The set without exclusion rules\<close>











section \<open>The set of two inclusion dates\<close>







end
